theory Spec2Isabelle
  imports Main "HOL-Library.Sublist" "HOL-Library.AList"
begin

section \<open>Strings\<close>

text \<open>
  A JavaScript string is modelled as a \<^typ>\<open>string\<close>, one \<^typ>\<open>char\<close> per code unit;
  the model covers the code units below 256. All literals of the program are ASCII.
\<close>

abbreviation nl :: char where "nl \<equiv> CHR 0x0A"
abbreviation cr :: char where "cr \<equiv> CHR 0x0D"
abbreviation dq :: char where "dq \<equiv> CHR 0x22"
abbreviation bsl :: char where "bsl \<equiv> CHR 0x5C"

text \<open>\<^verbatim>\<open>content.includes(s)\<close>: does \<open>s\<close> occur in \<open>content\<close> as a contiguous run?\<close>

fun str_includes :: "string \<Rightarrow> string \<Rightarrow> bool" where
  "str_includes [] s = (s = [])"
| "str_includes (c # cs) s = (prefix s (c # cs) \<or> str_includes cs s)"

text \<open>\<^verbatim>\<open>s.split('\n')\<close> and \<^verbatim>\<open>lines.join('\n')\<close>.\<close>

fun split_nl :: "string \<Rightarrow> string list" where
  "split_nl [] = [[]]"
| "split_nl (c # cs) =
     (if c = nl then [] # split_nl cs
      else (case split_nl cs of [] \<Rightarrow> [[c]] | l # ls \<Rightarrow> (c # l) # ls))"

fun join_nl :: "string list \<Rightarrow> string" where
  "join_nl [] = []"
| "join_nl [l] = l"
| "join_nl (l # ls) = l @ nl # join_nl ls"

text \<open>
  The first occurrence of a pattern in a text: the text in front of it and the text behind it.
\<close>

fun find_sub :: "string \<Rightarrow> string \<Rightarrow> (string \<times> string) option" where
  "find_sub pat [] = (if pat = [] then Some ([], []) else None)"
| "find_sub pat (c # cs) =
     (if prefix pat (c # cs) then Some ([], drop (length pat) (c # cs))
      else map_option (\<lambda>(pre, post). (c # pre, post)) (find_sub pat cs))"

text \<open>
  \<^verbatim>\<open>String.prototype.replace\<close> with a string pattern and a string replacement replaces the
  first occurrence only, and expands in the replacement the patterns \<^verbatim>\<open>$$\<close>, \<^verbatim>\<open>$&\<close>,
  \<^verbatim>\<open>$`\<close> and \<^verbatim>\<open>$'\<close> (a string pattern has no capture groups, so \<^verbatim>\<open>$1\<close> stays as it is).
\<close>

fun get_substitution :: "string \<Rightarrow> string \<Rightarrow> string \<Rightarrow> string \<Rightarrow> string" where
  "get_substitution matched pre post (c # d # r) =
     (if c = CHR ''$'' \<and> d = CHR ''$'' then CHR ''$'' # get_substitution matched pre post r
      else if c = CHR ''$'' \<and> d = CHR ''&'' then matched @ get_substitution matched pre post r
      else if c = CHR ''$'' \<and> d = CHR 0x60 then pre @ get_substitution matched pre post r
      else if c = CHR ''$'' \<and> d = CHR 0x27 then post @ get_substitution matched pre post r
      else c # get_substitution matched pre post (d # r))"
| "get_substitution matched pre post r = r"

definition js_replace :: "string \<Rightarrow> string \<Rightarrow> string \<Rightarrow> string" where
  "js_replace s pat repl =
     (case find_sub pat s of
        None \<Rightarrow> s
      | Some (pre, post) \<Rightarrow> pre @ get_substitution pat pre post repl @ post)"

text \<open>\<^verbatim>\<open>value.replace(/"/g, '\\"')\<close>: every double quote gets a backslash in front.\<close>

definition escape_quotes :: "string \<Rightarrow> string" where
  "escape_quotes v = concat (map (\<lambda>c. if c = dq then [bsl, dq] else [c]) v)"

text \<open>The character classes \<^verbatim>\<open>\s\<close>, \<^verbatim>\<open>[\w-]\<close> and the line terminators that \<^verbatim>\<open>.\<close> refuses.\<close>

definition is_space :: "char \<Rightarrow> bool" where
  "is_space c = (of_char c \<in> {9, 10, 11, 12, 13, 32, 160 :: nat})"

definition is_word :: "char \<Rightarrow> bool" where
  "is_word c =
     (let n = of_char c :: nat
      in (48 \<le> n \<and> n \<le> 57) \<or> (65 \<le> n \<and> n \<le> 90) \<or> n = 95 \<or> (97 \<le> n \<and> n \<le> 122))"

definition is_key_char :: "char \<Rightarrow> bool" where
  "is_key_char c = (is_word c \<or> c = CHR ''-'')"

definition is_line_terminator :: "char \<Rightarrow> bool" where
  "is_line_terminator c = (c = nl \<or> c = cr)"

section \<open>The file system and thrown errors\<close>

text \<open>
  A path holds a regular file with its text, a directory, or a file that exists but
  that the process may not read, write or remove.

  A thrown value is an \<^verbatim>\<open>Error\<close> object (of any subclass) with its \<^verbatim>\<open>name\<close> and its
  \<^verbatim>\<open>message\<close>, or a value that is not an \<^verbatim>\<open>Error\<close>, held as the text a template literal
  prints for it. A function that may throw returns \<open>js_error + 'a\<close>.
\<close>

datatype node = File string | Dir | Unreadable

type_synonym fs = "string \<rightharpoonup> node"

datatype js_error = Error string string | Thrown string

definition existsSync :: "fs \<Rightarrow> string \<Rightarrow> bool" where
  "existsSync fs p = (case fs p of None \<Rightarrow> False | Some _ \<Rightarrow> True)"

definition readFileSync :: "fs \<Rightarrow> string \<Rightarrow> js_error + string" where
  "readFileSync fs p =
     (case fs p of
        None \<Rightarrow> Inl (Error ''Error'' (''ENOENT: no such file or directory, open '' @ p))
      | Some Dir \<Rightarrow> Inl (Error ''Error'' ''EISDIR: illegal operation on a directory, read'')
      | Some Unreadable \<Rightarrow> Inl (Error ''Error'' (''EACCES: permission denied, open '' @ p))
      | Some (File content) \<Rightarrow> Inr content)"

section \<open>File discovery: the generated-file signature\<close>

definition signature_phrase :: string where
  "signature_phrase = ''Generated by cc-slash-agents''"

definition signature_marker :: string where
  "signature_marker = ''<!-- ccsa:generated -->''"

text \<open>
  \<^verbatim>\<open>FileDiscovery.isGeneratedFile\<close>: the existence test, then the read inside
  \<^verbatim>\<open>try\<close>, whose \<^verbatim>\<open>catch\<close> returns false.
\<close>

definition isGeneratedFile :: "fs \<Rightarrow> string \<Rightarrow> js_error + bool" where
  "isGeneratedFile fs filePath =
     (if \<not> existsSync fs filePath then Inr False
      else (case readFileSync fs filePath of
              Inr content \<Rightarrow>
                Inr (str_includes content signature_phrase \<or>
                     str_includes content signature_marker)
            | Inl _ \<Rightarrow> Inr False))"

section \<open>Metadata parser: the repair pass\<close>

text \<open>
  The line pattern \<^verbatim>\<open>/^(\s*[\w-]+):\s*(.*)$/\<close>: leading white space and a non-empty run
  of key characters (group 1), a colon, white space, and the rest of the line (group 2),
  which must hold no line terminator since \<^verbatim>\<open>.\<close> refuses them. White space and key
  characters are disjoint, and giving back white space to group 2 cannot make a failing
  match succeed, so the greedy split is the only one.
\<close>

definition key_val_match :: "string \<Rightarrow> (string \<times> string) option" where
  "key_val_match line =
     (let ws = takeWhile is_space line;
          r1 = dropWhile is_space line;
          k = takeWhile is_key_char r1;
          r2 = dropWhile is_key_char r1
      in (case r2 of
            [] \<Rightarrow> None
          | c # r3 \<Rightarrow>
              (let v = dropWhile is_space r3
               in if k \<noteq> [] \<and> c = CHR '':'' \<and> \<not> list_ex is_line_terminator v
                  then Some (ws @ k, v) else None)))"

definition needs_quoting :: "string \<Rightarrow> bool" where
  "needs_quoting v =
     (v \<noteq> [] \<and>
      \<not> prefix [dq] v \<and>
      \<not> prefix [CHR 0x27] v \<and>
      \<not> prefix ''['' v \<and>
      \<not> prefix ''{'' v \<and>
      (str_includes v '':'' \<or> str_includes v ''#''))"

definition fix_line :: "string \<Rightarrow> string" where
  "fix_line line =
     (case key_val_match line of
        None \<Rightarrow> line
      | Some (key, v) \<Rightarrow>
          (if needs_quoting v then key @ '': '' @ [dq] @ escape_quotes v @ [dq] else line))"

text \<open>
  The header pattern \<^verbatim>\<open>/^---\n([\s\S]*?)\n---/\<close>: the text opens with three hyphens and a
  newline, and group 1 is the shortest text followed by a newline and three hyphens.
\<close>

definition frontmatter_match :: "string \<Rightarrow> string option" where
  "frontmatter_match content =
     (if prefix (''---'' @ [nl]) content
      then map_option fst (find_sub (nl # ''---'') (drop 4 content))
      else None)"

text \<open>\<^verbatim>\<open>FileDiscovery.fixFrontmatter\<close>.\<close>

definition fixFrontmatter :: "string \<Rightarrow> string" where
  "fixFrontmatter content =
     (case frontmatter_match content of
        None \<Rightarrow> content
      | Some frontmatter \<Rightarrow>
          (let lines = split_nl frontmatter;
               fixedLines = map fix_line lines;
               newFrontmatter = join_nl fixedLines
           in js_replace content frontmatter newFrontmatter))"

section \<open>Decoded metadata, entries, the logger and the external collaborators\<close>

text \<open>
  What the YAML decoder can hand back for a field. The declared type of an agent's
  \<^verbatim>\<open>name\<close> and \<^verbatim>\<open>description\<close> is \<^verbatim>\<open>string\<close>, but \<^verbatim>\<open>parsed.data as AgentFrontmatter\<close> is
  an unchecked cast, so a field holds whatever the header said.

  The program does three things with such a value: it tests its truthiness, it prints it in
  a template literal, and it uses it as a key of a \<^verbatim>\<open>Map\<close>. A number is therefore held as
  the text JavaScript prints for it (\<^verbatim>\<open>7\<close>, \<^verbatim>\<open>1.5\<close>, \<^verbatim>\<open>1e+21\<close>, \<^verbatim>\<open>NaN\<close>): two numbers are the
  same key exactly when they print alike. An array, and any other object (a mapping, a
  date), carries an identity, since objects are compared by identity as keys; an array also
  carries its elements and another object the text printed for it (\<^verbatim>\<open>[object Object]\<close> for a
  mapping).
\<close>

datatype yaml =
    YNull
  | YBool bool
  | YNum string
  | YStr string
  | YSeq nat "yaml list"
  | YObject nat string

text \<open>
  JavaScript truthiness, as \<^verbatim>\<open>frontmatter.name && frontmatter.description\<close> tests it:
  \<^verbatim>\<open>undefined\<close>, \<^verbatim>\<open>null\<close>, \<^verbatim>\<open>false\<close>, \<^verbatim>\<open>0\<close>, \<^verbatim>\<open>NaN\<close> and the empty string are falsy; every
  array and object is truthy, the empty ones too.
\<close>

fun truthy :: "yaml option \<Rightarrow> bool" where
  "truthy None = False"
| "truthy (Some YNull) = False"
| "truthy (Some (YBool b)) = b"
| "truthy (Some (YNum n)) = (n \<noteq> ''0'' \<and> n \<noteq> ''NaN'')"
| "truthy (Some (YStr s)) = (s \<noteq> [])"
| "truthy (Some (YSeq i xs)) = True"
| "truthy (Some (YObject i s)) = True"

text \<open>Decimal numerals, for numeric suffixes.\<close>

definition digit_char :: "nat \<Rightarrow> char" where
  "digit_char d = char_of (48 + d)"

fun dec_nat :: "nat \<Rightarrow> string" where
  "dec_nat n = (if n < 10 then [digit_char n] else dec_nat (n div 10) @ [digit_char (n mod 10)])"

declare dec_nat.simps [simp del]

text \<open>The number a decimal numeral stands for.\<close>

definition dec_value :: "string \<Rightarrow> nat" where
  "dec_value s = foldl (\<lambda>acc c. 10 * acc + (of_char c - 48)) 0 s"

fun join_comma :: "string list \<Rightarrow> string" where
  "join_comma [] = []"
| "join_comma [l] = l"
| "join_comma (l # ls) = l @ CHR '','' # join_comma ls"

text \<open>
  \<^verbatim>\<open>`${v}`\<close>: the string a template literal makes of a value. An array prints its elements
  joined by commas, \<^verbatim>\<open>null\<close> elements as nothing.
\<close>

fun js_to_string :: "yaml \<Rightarrow> string"
  and js_elem_string :: "yaml \<Rightarrow> string" where
  "js_to_string YNull = ''null''"
| "js_to_string (YBool b) = (if b then ''true'' else ''false'')"
| "js_to_string (YNum n) = n"
| "js_to_string (YStr s) = s"
| "js_to_string (YSeq i xs) = join_comma (map js_elem_string xs)"
| "js_to_string (YObject i s) = s"
| "js_elem_string YNull = []"
| "js_elem_string (YBool b) = js_to_string (YBool b)"
| "js_elem_string (YNum n) = js_to_string (YNum n)"
| "js_elem_string (YStr s) = js_to_string (YStr s)"
| "js_elem_string (YSeq i xs) = js_to_string (YSeq i xs)"
| "js_elem_string (YObject i s) = js_to_string (YObject i s)"

text \<open>The same for a property that may be absent (\<^verbatim>\<open>undefined\<close>).\<close>

definition show_key :: "yaml option \<Rightarrow> string" where
  "show_key v = (case v of None \<Rightarrow> ''undefined'' | Some w \<Rightarrow> js_to_string w)"

text \<open>
  \<^verbatim>\<open>`${error}`\<close>: \<^verbatim>\<open>Error.prototype.toString\<close> prints the name, a colon and the message,
  and the one of the two that is not empty when the other is.
\<close>

fun error_str :: "js_error \<Rightarrow> string" where
  "error_str (Error name message) =
     (if name = [] then message else if message = [] then name else name @ '': '' @ message)"
| "error_str (Thrown shown) = shown"

text \<open>\<^verbatim>\<open>error instanceof Error && error.message.includes('already exists')\<close>.\<close>

fun already_exists_error :: "js_error \<Rightarrow> bool" where
  "already_exists_error (Error name message) = str_includes message ''already exists''"
| "already_exists_error (Thrown shown) = False"

text \<open>
  \<^verbatim>\<open>AgentFile\<close> and \<^verbatim>\<open>CommandFile\<close> have the same fields; at run time the front matter
  of either is the decoder's object. A scope is the string the program compares.
\<close>

record md_file =
  path :: string
  relativePath :: string
  frontmatter :: "string \<rightharpoonup> yaml"
  content :: string
  scope :: string

definition field_string :: "md_file \<Rightarrow> string \<Rightarrow> string" where
  "field_string f k = show_key (frontmatter f k)"

text \<open>A call of the \<^verbatim>\<open>Logger\<close>: its level and its message.\<close>

datatype level = Debug | Info | Warning | Failure | Success | Plain | Header | Dim

type_synonym log = "(level \<times> string) list"

text \<open>
  The collaborators outside the repository: the \<^verbatim>\<open>gray-matter\<close> decoder, \<^verbatim>\<open>glob\<close>,
  \<^verbatim>\<open>path.join\<close>, \<^verbatim>\<open>path.relative\<close>, \<^verbatim>\<open>os.homedir()\<close> and \<^verbatim>\<open>process.cwd()\<close>.

  The decoder is not a function of the text alone: \<^verbatim>\<open>gray-matter\<close> keeps, for the life of the
  process, a cache of the texts it was given, and answers from it. A call therefore takes
  the decoder's state and returns the new state with its result, which is the \<^verbatim>\<open>data\<close> object
  and the \<^verbatim>\<open>content\<close> text, or a thrown error. The state is of any type \<open>'st\<close>.
\<close>

type_synonym parsed = "(string \<rightharpoonup> yaml) \<times> string"

record 'st env =
  matter :: "'st \<Rightarrow> string \<Rightarrow> 'st \<times> (js_error + parsed)"
  glob :: "fs \<Rightarrow> string \<Rightarrow> js_error + string list"
  join :: "string \<Rightarrow> string \<Rightarrow> string"
  relative :: "string \<Rightarrow> string \<Rightarrow> string"
  homedir :: string
  cwd :: string

section \<open>Path resolver\<close>

definition getUserClaudeDir :: "'st env \<Rightarrow> string" where
  "getUserClaudeDir E = join E (homedir E) ''.claude''"

definition getProjectClaudeDir :: "'st env \<Rightarrow> string" where
  "getProjectClaudeDir E = join E (cwd E) ''.claude''"

definition getUserAgentsDir :: "'st env \<Rightarrow> string" where
  "getUserAgentsDir E = join E (getUserClaudeDir E) ''agents''"

definition getProjectAgentsDir :: "'st env \<Rightarrow> string" where
  "getProjectAgentsDir E = join E (getProjectClaudeDir E) ''agents''"

definition getUserCommandsDir :: "'st env \<Rightarrow> string" where
  "getUserCommandsDir E = join E (getUserClaudeDir E) ''commands''"

definition getProjectCommandsDir :: "'st env \<Rightarrow> string" where
  "getProjectCommandsDir E = join E (getProjectClaudeDir E) ''commands''"

text \<open>\<^verbatim>\<open>PathUtils.getValidAgentsDirs\<close>: the roots that exist, project first.\<close>

definition getValidAgentsDirs :: "'st env \<Rightarrow> fs \<Rightarrow> string \<Rightarrow> (string \<times> string) list" where
  "getValidAgentsDirs E fs sc =
     (if (sc = ''both'' \<or> sc = ''project'') \<and> existsSync fs (getProjectAgentsDir E)
      then [(getProjectAgentsDir E, ''project'')] else []) @
     (if (sc = ''both'' \<or> sc = ''user'') \<and> existsSync fs (getUserAgentsDir E)
      then [(getUserAgentsDir E, ''user'')] else [])"

text \<open>The commands roots that \<^verbatim>\<open>discoverCommands\<close> collects, in the same way.\<close>

definition validCommandsDirs :: "'st env \<Rightarrow> fs \<Rightarrow> string \<Rightarrow> (string \<times> string) list" where
  "validCommandsDirs E fs sc =
     (if (sc = ''both'' \<or> sc = ''project'') \<and> existsSync fs (getProjectCommandsDir E)
      then [(getProjectCommandsDir E, ''project'')] else []) @
     (if (sc = ''both'' \<or> sc = ''user'') \<and> existsSync fs (getUserCommandsDir E)
      then [(getUserCommandsDir E, ''user'')] else [])"

section \<open>File discovery: parsing and scanning\<close>

text \<open>
  The decoding step of \<^verbatim>\<open>parseAgentFile\<close> (the nested \<^verbatim>\<open>try\<close> blocks): decode; when that
  throws, repair the text and decode again, in the state the first call left; when that
  throws too, rethrow the first error. The result is the decoder's state, the logger calls
  and the decoded file or the thrown error.
\<close>

definition decode_or_repair ::
  "'st env \<Rightarrow> string \<Rightarrow> string \<Rightarrow> 'st \<Rightarrow> 'st \<times> log \<times> (js_error + parsed)" where
  "decode_or_repair E filePath text st =
     (case matter E st text of
        (st1, Inr parsed) \<Rightarrow> (st1, [], Inr parsed)
      | (st1, Inl error) \<Rightarrow>
          (case matter E st1 (fixFrontmatter text) of
             (st2, Inr parsed) \<Rightarrow>
               (st2, [(Debug, ''Recovered malformed agent file: '' @ filePath)], Inr parsed)
           | (st2, Inl retryError) \<Rightarrow> (st2, [], Inl error)))"

text \<open>
  \<^verbatim>\<open>FileDiscovery.parseAgentFile\<close>: the decoder's state, the logger calls made and either
  the thrown error or the returned entry (\<open>None\<close> is \<^verbatim>\<open>null\<close>).
\<close>

definition parseAgentFile ::
  "'st env \<Rightarrow> fs \<Rightarrow> string \<Rightarrow> string \<Rightarrow> string \<Rightarrow> 'st \<Rightarrow>
   'st \<times> log \<times> (js_error + md_file option)" where
  "parseAgentFile E fs filePath baseDir sc st =
     (if \<not> existsSync fs filePath then (st, [], Inr None)
      else (case readFileSync fs filePath of
              Inl error \<Rightarrow> (st, [], Inl error)
            | Inr text \<Rightarrow>
                (case decode_or_repair E filePath text st of
                   (st', lg, Inl error) \<Rightarrow> (st', lg, Inl error)
                 | (st', lg, Inr (fm, body)) \<Rightarrow>
                     (if \<not> (truthy (fm ''name'') \<and> truthy (fm ''description''))
                      then (st',
                            lg @ [(Debug, ''Skipping '' @ filePath @
                                     '': missing required frontmatter (name, description)'')],
                            Inr None)
                      else (st', lg, Inr (Some \<lparr>path = filePath,
                                                 relativePath = relative E baseDir filePath,
                                                 frontmatter = fm,
                                                 content = body,
                                                 scope = sc\<rparr>))))))"

text \<open>\<^verbatim>\<open>FileDiscovery.parseCommandFile\<close>: no repair and no mandatory field.\<close>

definition parseCommandFile ::
  "'st env \<Rightarrow> fs \<Rightarrow> string \<Rightarrow> string \<Rightarrow> string \<Rightarrow> 'st \<Rightarrow> 'st \<times> (js_error + md_file option)" where
  "parseCommandFile E fs filePath baseDir sc st =
     (if \<not> existsSync fs filePath then (st, Inr None)
      else (case readFileSync fs filePath of
              Inl error \<Rightarrow> (st, Inl error)
            | Inr text \<Rightarrow>
                (case matter E st text of
                   (st', Inl error) \<Rightarrow> (st', Inl error)
                 | (st', Inr (fm, body)) \<Rightarrow>
                     (st', Inr (Some \<lparr>path = filePath,
                                      relativePath = relative E baseDir filePath,
                                      frontmatter = fm,
                                      content = body,
                                      scope = sc\<rparr>)))))"

text \<open>
  One pass of the inner loop of \<^verbatim>\<open>discoverAgents\<close>: the \<^verbatim>\<open>try\<close> around one file, whose
  \<^verbatim>\<open>catch\<close> logs a warning. The state is the decoder's state, the \<^verbatim>\<open>agents\<close> array and the
  log.
\<close>

definition agent_file_step ::
  "'st env \<Rightarrow> fs \<Rightarrow> string \<Rightarrow> string \<Rightarrow> string \<Rightarrow> 'st \<times> md_file list \<times> log \<Rightarrow>
   'st \<times> md_file list \<times> log" where
  "agent_file_step E fs agentsDir dirScope filePath s =
     (case s of (st, agents, lg) \<Rightarrow>
        (case parseAgentFile E fs filePath agentsDir dirScope st of
           (st', lg', Inr (Some agent)) \<Rightarrow>
             (st', agents @ [agent],
              lg @ lg' @ [(Debug, ''Found agent: '' @ field_string agent ''name'' @
                                    '' ('' @ dirScope @ '')'')])
         | (st', lg', Inr None) \<Rightarrow> (st', agents, lg @ lg')
         | (st', lg', Inl error) \<Rightarrow>
             (st', agents,
              lg @ lg' @ [(Warning, ''Failed to parse agent file '' @ filePath @ '': '' @
                                      error_str error)])))"

fun agent_files_loop ::
  "'st env \<Rightarrow> fs \<Rightarrow> string \<Rightarrow> string \<Rightarrow> string list \<Rightarrow> 'st \<times> md_file list \<times> log \<Rightarrow>
   'st \<times> md_file list \<times> log" where
  "agent_files_loop E fs agentsDir dirScope [] s = s"
| "agent_files_loop E fs agentsDir dirScope (filePath # files) s =
     agent_files_loop E fs agentsDir dirScope files
       (agent_file_step E fs agentsDir dirScope filePath s)"

definition md_pattern :: "'st env \<Rightarrow> string \<Rightarrow> string" where
  "md_pattern E dir = map (\<lambda>c. if c = bsl then CHR ''/'' else c) (join E dir ''**/*.md'')"

text \<open>
  One pass of the outer loop over the roots: the \<^verbatim>\<open>try\<close> around one root, whose \<^verbatim>\<open>catch\<close>
  logs at debug level.
\<close>

definition agent_dir_step ::
  "'st env \<Rightarrow> fs \<Rightarrow> string \<times> string \<Rightarrow> 'st \<times> md_file list \<times> log \<Rightarrow> 'st \<times> md_file list \<times> log" where
  "agent_dir_step E fs d s =
     (case d of (agentsDir, dirScope) \<Rightarrow>
        (case s of (st, agents, lg) \<Rightarrow>
           (case glob E fs (md_pattern E agentsDir) of
              Inl error \<Rightarrow>
                (st, agents,
                 lg @ [(Debug, ''Scanning agents directory: '' @ agentsDir),
                       (Debug, ''Error scanning '' @ agentsDir @ '': '' @ error_str error)])
            | Inr files \<Rightarrow>
                agent_files_loop E fs agentsDir dirScope files
                  (st, agents, lg @ [(Debug, ''Scanning agents directory: '' @ agentsDir)]))))"

fun agent_dirs_loop ::
  "'st env \<Rightarrow> fs \<Rightarrow> (string \<times> string) list \<Rightarrow> 'st \<times> md_file list \<times> log \<Rightarrow>
   'st \<times> md_file list \<times> log" where
  "agent_dirs_loop E fs [] s = s"
| "agent_dirs_loop E fs (d # dirs) s = agent_dirs_loop E fs dirs (agent_dir_step E fs d s)"

text \<open>\<^verbatim>\<open>FileDiscovery.discoverAgents\<close>: the decoder's state, the catalog and the logger calls.\<close>

definition discoverAgents :: "'st env \<Rightarrow> fs \<Rightarrow> string \<Rightarrow> 'st \<Rightarrow> 'st \<times> md_file list \<times> log" where
  "discoverAgents E fs sc st = agent_dirs_loop E fs (getValidAgentsDirs E fs sc) (st, [], [])"

definition command_file_step ::
  "'st env \<Rightarrow> fs \<Rightarrow> string \<Rightarrow> string \<Rightarrow> string \<Rightarrow> 'st \<times> md_file list \<times> log \<Rightarrow>
   'st \<times> md_file list \<times> log" where
  "command_file_step E fs commandsDir dirScope filePath s =
     (case s of (st, commands, lg) \<Rightarrow>
        (case parseCommandFile E fs filePath commandsDir dirScope st of
           (st', Inr (Some command)) \<Rightarrow>
             (st', commands @ [command],
              lg @ [(Debug, ''Found command: '' @ relative E commandsDir filePath @
                              '' ('' @ dirScope @ '')'')])
         | (st', Inr None) \<Rightarrow> (st', commands, lg)
         | (st', Inl error) \<Rightarrow>
             (st', commands,
              lg @ [(Warning, ''Failed to parse command file '' @ filePath @ '': '' @
                                error_str error)])))"

fun command_files_loop ::
  "'st env \<Rightarrow> fs \<Rightarrow> string \<Rightarrow> string \<Rightarrow> string list \<Rightarrow> 'st \<times> md_file list \<times> log \<Rightarrow>
   'st \<times> md_file list \<times> log" where
  "command_files_loop E fs commandsDir dirScope [] s = s"
| "command_files_loop E fs commandsDir dirScope (filePath # files) s =
     command_files_loop E fs commandsDir dirScope files
       (command_file_step E fs commandsDir dirScope filePath s)"

definition command_dir_step ::
  "'st env \<Rightarrow> fs \<Rightarrow> string \<times> string \<Rightarrow> 'st \<times> md_file list \<times> log \<Rightarrow> 'st \<times> md_file list \<times> log" where
  "command_dir_step E fs d s =
     (case d of (commandsDir, dirScope) \<Rightarrow>
        (case s of (st, commands, lg) \<Rightarrow>
           (case glob E fs (md_pattern E commandsDir) of
              Inl error \<Rightarrow>
                (st, commands,
                 lg @ [(Debug, ''Scanning commands directory: '' @ commandsDir),
                       (Debug, ''Error scanning '' @ commandsDir @ '': '' @ error_str error)])
            | Inr files \<Rightarrow>
                command_files_loop E fs commandsDir dirScope files
                  (st, commands, lg @ [(Debug, ''Scanning commands directory: '' @ commandsDir)]))))"

fun command_dirs_loop ::
  "'st env \<Rightarrow> fs \<Rightarrow> (string \<times> string) list \<Rightarrow> 'st \<times> md_file list \<times> log \<Rightarrow>
   'st \<times> md_file list \<times> log" where
  "command_dirs_loop E fs [] s = s"
| "command_dirs_loop E fs (d # dirs) s = command_dirs_loop E fs dirs (command_dir_step E fs d s)"

text \<open>\<^verbatim>\<open>FileDiscovery.discoverCommands\<close>.\<close>

definition discoverCommands :: "'st env \<Rightarrow> fs \<Rightarrow> string \<Rightarrow> 'st \<Rightarrow> 'st \<times> md_file list \<times> log" where
  "discoverCommands E fs sc st = command_dirs_loop E fs (validCommandsDirs E fs sc) (st, [], [])"

section \<open>Writing and removing files\<close>

definition writeFileSync :: "fs \<Rightarrow> string \<Rightarrow> string \<Rightarrow> js_error + fs" where
  "writeFileSync fs p text =
     (case fs p of
        Some Dir \<Rightarrow> Inl (Error ''Error'' (''EISDIR: illegal operation on a directory, open '' @ p))
      | Some Unreadable \<Rightarrow> Inl (Error ''Error'' (''EACCES: permission denied, open '' @ p))
      | _ \<Rightarrow> Inr (fs(p \<mapsto> File text)))"

definition unlinkSync :: "fs \<Rightarrow> string \<Rightarrow> js_error + fs" where
  "unlinkSync fs p =
     (case fs p of
        None \<Rightarrow> Inl (Error ''Error'' (''ENOENT: no such file or directory, unlink '' @ p))
      | Some Dir \<Rightarrow> Inl (Error ''Error'' (''EPERM: operation not permitted, unlink '' @ p))
      | Some Unreadable \<Rightarrow> Inl (Error ''Error'' (''EACCES: permission denied, unlink '' @ p))
      | Some (File text) \<Rightarrow> Inr (fs(p := None)))"

definition ensure_dir :: "fs \<Rightarrow> string \<Rightarrow> js_error + fs" where
  "ensure_dir fs d =
     (case fs d of
        None \<Rightarrow> Inr (fs(d \<mapsto> Dir))
      | Some Dir \<Rightarrow> Inr fs
      | Some _ \<Rightarrow> Inl (Error ''Error'' (''EEXIST: file already exists, mkdir '' @ d)))"

section \<open>Command name resolver\<close>

text \<open>
  Modelled from the spec: \<^verbatim>\<open>CommandGenerator.generateCommandName\<close> (the spec's
  \<open>deriveName\<close>), whose source file \<^verbatim>\<open>core/command-generator.ts\<close> is not among the sources.
  The spec leaves the rule open and names one: lower case, and every run of characters
  that are not letters or digits collapsed into one hyphen.
\<close>

definition is_alnum :: "char \<Rightarrow> bool" where
  "is_alnum c =
     (let n = of_char c :: nat
      in (48 \<le> n \<and> n \<le> 57) \<or> (65 \<le> n \<and> n \<le> 90) \<or> (97 \<le> n \<and> n \<le> 122))"

definition to_lower :: "char \<Rightarrow> char" where
  "to_lower c = (let n = of_char c :: nat in if 65 \<le> n \<and> n \<le> 90 then char_of (n + 32) else c)"

definition norm_char :: "char \<Rightarrow> char" where
  "norm_char c = (if is_alnum c then to_lower c else CHR ''-'')"

fun squeeze_hyphens :: "string \<Rightarrow> string" where
  "squeeze_hyphens (c # d # r) =
     (if c = CHR ''-'' \<and> d = CHR ''-'' then squeeze_hyphens (d # r)
      else c # squeeze_hyphens (d # r))"
| "squeeze_hyphens r = r"

definition generateCommandName :: "string \<Rightarrow> string" where
  "generateCommandName agentName = squeeze_hyphens (map norm_char agentName)"


text \<open>
  Modelled from the spec: the suffix scheme of \<^verbatim>\<open>resolveNamingConflicts\<close> (source file not
  among the sources). The spec leaves it open (``e.g. \<^verbatim>\<open>-2\<close>, \<^verbatim>\<open>-3\<close>'', ``or equivalent
  deterministic suffixing''), so the resolver takes it as a parameter \<open>sfx\<close>: \<open>sfx base n\<close>
  is the suffixed form number \<open>n\<close> of \<open>base\<close>. Two schemes: the one of the spec's example,
  and one whose separator is not a character of a derived name.
\<close>

definition hyphen_suffix :: "string \<Rightarrow> nat \<Rightarrow> string" where
  "hyphen_suffix base n = base @ ''-'' @ dec_nat n"

definition underscore_suffix :: "string \<Rightarrow> nat \<Rightarrow> string" where
  "underscore_suffix base n = base @ ''_'' @ dec_nat n"

text \<open>
  Modelled from the spec: the retry of \<^verbatim>\<open>resolveNamingConflicts\<close> (source file not among the
  sources): ``append a numeric disambiguating suffix and retry until unclaimed''. With a
  scheme that repeats itself the retry may never end; not returning is the value \<open>None\<close>.
\<close>

partial_function (option) retry_suffix ::
  "(string \<Rightarrow> nat \<Rightarrow> string) \<Rightarrow> string list \<Rightarrow> string \<Rightarrow> nat \<Rightarrow> string option" where
  "retry_suffix sfx claimed base n =
     (if sfx base n \<in> set claimed then retry_suffix sfx claimed base (Suc n)
      else Some (sfx base n))"

declare retry_suffix.simps [code]

text \<open>
  The key of the name map is the value of the agent's \<^verbatim>\<open>name\<close> field, whatever its type
  (\<open>None\<close> is \<^verbatim>\<open>undefined\<close>).
\<close>

type_synonym name_map = "(yaml option \<times> string) list"

text \<open>
  Modelled from the spec: \<^verbatim>\<open>CommandGenerator.resolveNamingConflicts\<close> (source file not among
  the sources). The agents are taken in their order; each gets its derived name, or, when
  an earlier agent of the pass has claimed it, the first unclaimed suffixed form. The state
  is the claimed identifiers and the map from logical name to final identifier, a
  JavaScript \<^verbatim>\<open>Map\<close>: setting a key that is there replaces its value in place, a new key
  goes to the end. The spec speaks of logical names that are strings; the name is derived
  from the text a template literal prints for the field.
\<close>

definition final_name :: "(string \<Rightarrow> nat \<Rightarrow> string) \<Rightarrow> string list \<Rightarrow> string \<Rightarrow> string option" where
  "final_name sfx claimed candidate =
     (if candidate \<in> set claimed then retry_suffix sfx claimed candidate 2 else Some candidate)"

fun resolve_loop ::
  "(string \<Rightarrow> nat \<Rightarrow> string) \<Rightarrow> md_file list \<Rightarrow> string list \<times> name_map \<Rightarrow>
   (string list \<times> name_map) option" where
  "resolve_loop sfx [] s = Some s"
| "resolve_loop sfx (agent # agents) s =
     (case final_name sfx (fst s) (generateCommandName (field_string agent ''name'')) of
        None \<Rightarrow> None
      | Some final \<Rightarrow>
          resolve_loop sfx agents
            (final # fst s, AList.update (frontmatter agent ''name'') final (snd s)))"

definition resolveNamingConflicts :: "(string \<Rightarrow> nat \<Rightarrow> string) \<Rightarrow> md_file list \<Rightarrow> name_map option" where
  "resolveNamingConflicts sfx agents = map_option snd (resolve_loop sfx agents ([], []))"


section \<open>Command generator\<close>

text \<open>
  The interface of \<^verbatim>\<open>core/command-generator.ts\<close> as its callers see it.
  \<^verbatim>\<open>generateCommand(agent, targetScope, force)\<close> may change the file system, and returns
  \<^verbatim>\<open>{commandName, path}\<close> or throws; \<^verbatim>\<open>resolveNamingConflicts(agents)\<close> returns the name map
  or throws; \<^verbatim>\<open>generateCommandName(agentName)\<close> returns a name or throws. The callers in
  \<^verbatim>\<open>commands/generate.ts\<close> and \<^verbatim>\<open>commands/sync.ts\<close> are modelled over any functions of these
  types.
\<close>

type_synonym generator = "md_file \<Rightarrow> string \<Rightarrow> bool \<Rightarrow> fs \<Rightarrow> fs \<times> (js_error + string \<times> string)"

type_synonym resolver = "md_file list \<Rightarrow> js_error + name_map"

type_synonym namer = "yaml option \<Rightarrow> js_error + string"

definition commandsDirFor :: "'st env \<Rightarrow> string \<Rightarrow> string" where
  "commandsDirFor E targetScope =
     (if targetScope = ''project'' then getProjectCommandsDir E else getUserCommandsDir E)"

definition command_path :: "'st env \<Rightarrow> md_file \<Rightarrow> string \<Rightarrow> string" where
  "command_path E agent targetScope =
     join E (commandsDirFor E targetScope)
       (generateCommandName (field_string agent ''name'') @ ''.md'')"

definition render_command :: "md_file \<Rightarrow> string" where
  "render_command agent =
     ''---'' @ [nl] @ ''description: '' @ field_string agent ''description'' @ [nl] @
     ''---'' @ [nl] @ signature_marker @ [nl] @ content agent @ [nl] @ signature_phrase @ [nl]"

text \<open>
  Modelled from the spec: \<^verbatim>\<open>CommandGenerator.generateCommand\<close> (source file not among the
  sources). The destination is \<^verbatim>\<open><commands root of the target scope>/<derived name>.md\<close>;
  a file there and no \<^verbatim>\<open>force\<close> is the ``already exists'' failure; otherwise the commands
  directory is created when absent and the rendered text, which carries both signature
  tokens, is written.
\<close>

definition generateCommand :: "'st env \<Rightarrow> generator" where
  "generateCommand E agent targetScope force fs =
     (let commandName = generateCommandName (field_string agent ''name'');
          commandPath = command_path E agent targetScope
      in if existsSync fs commandPath \<and> \<not> force
         then (fs, Inl (Error ''Error'' (''Command file already exists: '' @ commandPath)))
         else (case ensure_dir fs (commandsDirFor E targetScope) of
                 Inl error \<Rightarrow> (fs, Inl error)
               | Inr fs1 \<Rightarrow>
                   (case writeFileSync fs1 commandPath (render_command agent) of
                      Inl error \<Rightarrow> (fs1, Inl error)
                    | Inr fs2 \<Rightarrow> (fs2, Inr (commandName, commandPath)))))"

section \<open>The generate command\<close>

text \<open>
  \<^verbatim>\<open>generateCommands\<close> in \<^verbatim>\<open>commands/generate.ts\<close>. Of the console output only what can throw
  is modelled; the outcome carries the three lists that the summary prints. \<open>G\<close> is the
  generator, \<open>R\<close> the name resolver and \<open>N\<close> the name derivation.
\<close>

definition valid_scope :: "string \<Rightarrow> bool" where
  "valid_scope sc = (sc \<in> set [''project'', ''user'', ''both''])"

definition target_scope :: "string \<Rightarrow> string" where
  "target_scope sc = (if sc = ''both'' then ''project'' else sc)"

text \<open>
  \<^verbatim>\<open>agent.frontmatter.description.substring(0, 80)\<close> in the loop that lists the discovered
  agents, lines 164 to 168. Only a string has the method; on any other value the call
  throws a \<^verbatim>\<open>TypeError\<close>. The loop stands outside every per-item \<^verbatim>\<open>try\<close>, so the error leaves
  \<^verbatim>\<open>generateCommands\<close>.
\<close>

definition description_preview :: "md_file \<Rightarrow> js_error + string" where
  "description_preview agent =
     (case frontmatter agent ''description'' of
        Some (YStr s) \<Rightarrow> Inr (take 80 s)
      | None \<Rightarrow>
          Inl (Error ''TypeError'' ''Cannot read properties of undefined (reading substring)'')
      | Some YNull \<Rightarrow>
          Inl (Error ''TypeError'' ''Cannot read properties of null (reading substring)'')
      | Some _ \<Rightarrow>
          Inl (Error ''TypeError'' ''agent.frontmatter.description.substring is not a function''))"

fun listing_loop :: "md_file list \<Rightarrow> js_error + string list" where
  "listing_loop [] = Inr []"
| "listing_loop (agent # agents) =
     (case description_preview agent of
        Inl error \<Rightarrow> Inl error
      | Inr preview \<Rightarrow>
          (case listing_loop agents of
             Inl error \<Rightarrow> Inl error
           | Inr previews \<Rightarrow> Inr (preview # previews)))"

text \<open>
  The loop over \<^verbatim>\<open>nameMap.entries()\<close>, lines 174 to 179, which collects the renamings it
  reports; it calls the name derivation outside every per-item \<^verbatim>\<open>try\<close> as well.
\<close>

fun conflicts_loop :: "namer \<Rightarrow> name_map \<Rightarrow> js_error + string list" where
  "conflicts_loop N [] = Inr []"
| "conflicts_loop N ((agentName, commandName) # entries) =
     (case N agentName of
        Inl error \<Rightarrow> Inl error
      | Inr derived \<Rightarrow>
          (case conflicts_loop N entries of
             Inl error \<Rightarrow> Inl error
           | Inr conflicts \<Rightarrow>
               Inr ((if agentName \<noteq> Some (YStr derived)
                     then [show_key agentName @ '' -> /'' @ commandName] else []) @ conflicts)))"

text \<open>
  \<^verbatim>\<open>nameMap.get(agent.frontmatter.name) || agent.frontmatter.name\<close>; the arrays it goes to
  are only printed, so the name is held as the text printed for it.
\<close>

definition name_or_self :: "name_map \<Rightarrow> yaml option \<Rightarrow> string" where
  "name_or_self nameMap n =
     (case map_of nameMap n of None \<Rightarrow> show_key n | Some v \<Rightarrow> if v = [] then show_key n else v)"

text \<open>
  One pass of the generation loop, lines 206 to 222: the state is the file system and the
  arrays \<^verbatim>\<open>generated\<close>, \<^verbatim>\<open>skipped\<close> and \<^verbatim>\<open>errors\<close>.
\<close>

definition generate_step ::
  "generator \<Rightarrow> name_map \<Rightarrow> string \<Rightarrow> bool \<Rightarrow> md_file \<Rightarrow>
   fs \<times> string list \<times> string list \<times> string list \<Rightarrow> fs \<times> string list \<times> string list \<times> string list" where
  "generate_step G nameMap sc force agent s =
     (case s of (fs, generated, skipped, errors) \<Rightarrow>
        (case G agent (target_scope sc) force fs of
           (fs', Inr (commandName, commandPath)) \<Rightarrow>
             (fs', generated @ [commandName], skipped, errors)
         | (fs', Inl error) \<Rightarrow>
             (let commandName = name_or_self nameMap (frontmatter agent ''name'')
              in if already_exists_error error
                 then (fs', generated, skipped @ [commandName], errors)
                 else (fs', generated, skipped,
                       errors @ [commandName @ '': '' @ error_str error]))))"

fun generate_loop ::
  "generator \<Rightarrow> name_map \<Rightarrow> string \<Rightarrow> bool \<Rightarrow> md_file list \<Rightarrow>
   fs \<times> string list \<times> string list \<times> string list \<Rightarrow> fs \<times> string list \<times> string list \<times> string list" where
  "generate_loop G nameMap sc force [] s = s"
| "generate_loop G nameMap sc force (agent # agents) s =
     generate_loop G nameMap sc force agents (generate_step G nameMap sc force agent s)"

datatype generate_outcome =
    NoAgentDirs
  | NoAgentsFound
  | DryRun
  | Generated "string list" "string list" "string list"

definition generateCommands ::
  "'st env \<Rightarrow> generator \<Rightarrow> resolver \<Rightarrow> namer \<Rightarrow> string \<Rightarrow> bool \<Rightarrow> bool \<Rightarrow> 'st \<Rightarrow> fs \<Rightarrow>
   'st \<times> fs \<times> (js_error + generate_outcome)" where
  "generateCommands E G R N sc dryRun force st fs =
     (if \<not> valid_scope sc
      then (st, fs, Inl (Error ''Error'' ''Scope must be one of: project, user, both''))
      else if getValidAgentsDirs E fs sc = [] then (st, fs, Inr NoAgentDirs)
      else (case discoverAgents E fs sc st of
              (st1, agents, lg) \<Rightarrow>
                (if agents = [] then (st1, fs, Inr NoAgentsFound)
                 else (case listing_loop agents of
                         Inl error \<Rightarrow> (st1, fs, Inl error)
                       | Inr previews \<Rightarrow>
                           (case R agents of
                              Inl error \<Rightarrow> (st1, fs, Inl error)
                            | Inr nameMap \<Rightarrow>
                                (case conflicts_loop N nameMap of
                                   Inl error \<Rightarrow> (st1, fs, Inl error)
                                 | Inr conflicts \<Rightarrow>
                                     (if dryRun then (st1, fs, Inr DryRun)
                                      else (case generate_loop G nameMap sc force agents
                                                   (fs, [], [], []) of
                                              (fs', generated, skipped, errors) \<Rightarrow>
                                                (st1, fs',
                                                 Inr (Generated generated skipped errors))))))))))"

section \<open>The reconciler\<close>

text \<open>\<^verbatim>\<open>syncCommands\<close> in \<^verbatim>\<open>commands/sync.ts\<close>.\<close>

record plan =
  toCreate :: "md_file list"
  toUpdate :: "(md_file \<times> md_file) list"
  toDelete :: "string list"

text \<open>\<^verbatim>\<open>c.relativePath.replace('.md', '')\<close>.\<close>

definition command_name :: "md_file \<Rightarrow> string" where
  "command_name c = js_replace (relativePath c) ''.md'' []"

text \<open>
  The test of the \<^verbatim>\<open>find\<close> callback, lines 68 to 71: the command's name is the agent's
  expected name, \<^verbatim>\<open>nameMap.get(agent.frontmatter.name)\<close>.
\<close>

definition matches :: "name_map \<Rightarrow> md_file \<Rightarrow> md_file \<Rightarrow> bool" where
  "matches nameMap agent c = (Some (command_name c) = map_of nameMap (frontmatter agent ''name''))"

text \<open>
  The loop over the agents, lines 66 to 78: the command found for the agent's expected
  name, if any, sends the agent to \<^verbatim>\<open>toUpdate\<close>, and no command sends it to \<^verbatim>\<open>toCreate\<close>.
  The state is the two arrays.
\<close>

fun classify_loop ::
  "name_map \<Rightarrow> md_file list \<Rightarrow> md_file list \<Rightarrow>
   (md_file \<times> md_file) list \<times> md_file list \<Rightarrow> (md_file \<times> md_file) list \<times> md_file list" where
  "classify_loop nameMap generatedCommands [] s = s"
| "classify_loop nameMap generatedCommands (agent # agents) s =
     classify_loop nameMap generatedCommands agents
       (case find (matches nameMap agent) generatedCommands of
          Some existingCommand \<Rightarrow> (fst s @ [(agent, existingCommand)], snd s)
        | None \<Rightarrow> (fst s, snd s @ [agent]))"

text \<open>The analysis of a run, lines 48 to 88: the generated commands, the name map, the three arrays.\<close>

definition reconcile :: "fs \<Rightarrow> name_map \<Rightarrow> md_file list \<Rightarrow> md_file list \<Rightarrow> bool \<Rightarrow> plan" where
  "reconcile fs nameMap agents existingCommands clean =
     (let generatedCommands = filter (\<lambda>c. isGeneratedFile fs (path c) = Inr True) existingCommands;
          expectedCommands = set (map snd nameMap)
      in (case classify_loop nameMap generatedCommands agents ([], []) of
            (upd, cre) \<Rightarrow>
              \<lparr>toCreate = cre,
               toUpdate = upd,
               toDelete = (if clean
                           then map path (filter (\<lambda>c. command_name c \<notin> expectedCommands)
                                            generatedCommands)
                           else [])\<rparr>))"

text \<open>
  One pass of each of the three execution loops, lines 130 to 161. The state of each is the
  file system, its counter and the \<^verbatim>\<open>errors\<close> array.
\<close>

definition create_step ::
  "generator \<Rightarrow> string \<Rightarrow> md_file \<Rightarrow> fs \<times> nat \<times> string list \<Rightarrow> fs \<times> nat \<times> string list" where
  "create_step G sc agent s =
     (case s of (fs, created, errors) \<Rightarrow>
        (case G agent (target_scope sc) True fs of
           (fs', Inr r) \<Rightarrow> (fs', Suc created, errors)
         | (fs', Inl error) \<Rightarrow>
             (fs', created,
              errors @ [''Failed to create command for '' @ field_string agent ''name'' @ '': '' @
                        error_str error])))"

fun create_loop ::
  "generator \<Rightarrow> string \<Rightarrow> md_file list \<Rightarrow> fs \<times> nat \<times> string list \<Rightarrow> fs \<times> nat \<times> string list" where
  "create_loop G sc [] s = s"
| "create_loop G sc (agent # agents) s = create_loop G sc agents (create_step G sc agent s)"

definition update_step ::
  "generator \<Rightarrow> string \<Rightarrow> md_file \<times> md_file \<Rightarrow> fs \<times> nat \<times> string list \<Rightarrow> fs \<times> nat \<times> string list" where
  "update_step G sc pair s =
     (case pair of (agent, command) \<Rightarrow>
        (case s of (fs, updated, errors) \<Rightarrow>
           (case G agent (target_scope sc) True fs of
              (fs', Inr r) \<Rightarrow> (fs', Suc updated, errors)
            | (fs', Inl error) \<Rightarrow>
                (fs', updated,
                 errors @ [''Failed to update command for '' @ field_string agent ''name'' @ '': '' @
                           error_str error]))))"

fun update_loop ::
  "generator \<Rightarrow> string \<Rightarrow> (md_file \<times> md_file) list \<Rightarrow> fs \<times> nat \<times> string list \<Rightarrow>
   fs \<times> nat \<times> string list" where
  "update_loop G sc [] s = s"
| "update_loop G sc (pair # pairs) s = update_loop G sc pairs (update_step G sc pair s)"

definition delete_step :: "string \<Rightarrow> fs \<times> nat \<times> string list \<Rightarrow> fs \<times> nat \<times> string list" where
  "delete_step p s =
     (case s of (fs, deleted, errors) \<Rightarrow>
        (case unlinkSync fs p of
           Inr fs' \<Rightarrow> (fs', Suc deleted, errors)
         | Inl error \<Rightarrow>
             (fs, deleted, errors @ [''Failed to delete '' @ p @ '': '' @ error_str error])))"

fun delete_loop :: "string list \<Rightarrow> fs \<times> nat \<times> string list \<Rightarrow> fs \<times> nat \<times> string list" where
  "delete_loop [] s = s"
| "delete_loop (p # ps) s = delete_loop ps (delete_step p s)"

datatype sync_outcome =
    NoAgents
  | UpToDate plan
  | Synced plan nat nat nat "string list"

definition syncCommands ::
  "'st env \<Rightarrow> generator \<Rightarrow> resolver \<Rightarrow> string \<Rightarrow> bool \<Rightarrow> 'st \<Rightarrow> fs \<Rightarrow>
   'st \<times> fs \<times> (js_error + sync_outcome)" where
  "syncCommands E G R sc clean st fs =
     (if \<not> valid_scope sc
      then (st, fs, Inl (Error ''Error'' ''Scope must be one of: project, user, both''))
      else (case discoverAgents E fs sc st of
              (st1, agents, lg1) \<Rightarrow>
                (case discoverCommands E fs sc st1 of
                   (st2, existingCommands, lg2) \<Rightarrow>
                     (if agents = [] then (st2, fs, Inr NoAgents)
                      else (case R agents of
                              Inl error \<Rightarrow> (st2, fs, Inl error)
                            | Inr nameMap \<Rightarrow>
                                (let pl = reconcile fs nameMap agents existingCommands clean
                                 in if toCreate pl = [] \<and> toUpdate pl = [] \<and> toDelete pl = []
                                    then (st2, fs, Inr (UpToDate pl))
                                    else (case create_loop G sc (toCreate pl) (fs, 0, []) of
                                            (fs1, created, errors1) \<Rightarrow>
                                              (case update_loop G sc (toUpdate pl)
                                                      (fs1, 0, errors1) of
                                                 (fs2, updated, errors2) \<Rightarrow>
                                                   (case (if clean
                                                          then delete_loop (toDelete pl)
                                                                 (fs2, 0, errors2)
                                                          else (fs2, 0, errors2)) of
                                                      (fs3, deleted, errors3) \<Rightarrow>
                                                        (st2, fs3,
                                                         Inr (Synced pl created updated deleted
                                                                errors3)))))))))))"

section \<open>A concrete world\<close>

text \<open>
  A decoder that answers as \<^verbatim>\<open>gray-matter\<close> does, over a parser \<open>parse\<close> of the header. Its
  state is the cache, keyed by the text. The empty text is answered at once. A text seen
  before is answered from the cache. A new text is put into the cache before it is parsed,
  with no data and itself as content, and the entry is completed only when the parsing
  succeeds; so a text whose parsing threw is answered, the next time, with no data and no
  error.
\<close>

definition cached_matter ::
  "(string \<Rightarrow> js_error + parsed) \<Rightarrow> (string \<rightharpoonup> parsed) \<Rightarrow> string \<Rightarrow>
   (string \<rightharpoonup> parsed) \<times> (js_error + parsed)" where
  "cached_matter parse cache input =
     (if input = [] then (cache, Inr (Map.empty, []))
      else (case cache input of
              Some file \<Rightarrow> (cache, Inr file)
            | None \<Rightarrow>
                (case parse input of
                   Inr file \<Rightarrow> (cache(input \<mapsto> file), Inr file)
                 | Inl error \<Rightarrow> (cache(input \<mapsto> (Map.empty, input)), Inl error))))"

text \<open>
  A project with five agent files (a complete one, one without a description, one whose
  header no repair can save, a second complete one, and the malformed one of the
  repository's tests, which the repair leaves as it is) and three command files (a
  generated one, a hand-written one and a generated one in a subdirectory), and
  collaborators that answer for these files.
\<close>

definition ex_text_a :: string where
  "ex_text_a = ''---\<newline>name: Test Agent\<newline>description: d\<newline>---\<newline>body a''"

definition ex_text_b :: string where
  "ex_text_b = ''---\<newline>name: bar\<newline>---\<newline>body b''"

definition ex_text_c :: string where
  "ex_text_c = ''---\<newline>name: c: d\<newline>  bad\<newline>---\<newline>x''"

definition ex_text_d :: string where
  "ex_text_d = ''---\<newline>name: keep\<newline>description: k\<newline>---\<newline>body d''"

definition ex_text_m :: string where
  "ex_text_m = ''---\<newline>name: malformed\<newline>description: '' @ [dq] @
               ''Unclosed quote\<newline>tools: Read\<newline>---\<newline>\<newline>Content here.''"

definition ex_text_l :: string where
  "ex_text_l = ''---\<newline>name: lister\<newline>description: []\<newline>---\<newline>body l''"

definition ex_parse :: "string \<Rightarrow> js_error + parsed" where
  "ex_parse t =
     (if \<not> prefix ''---'' t then Inr (Map.empty, t)
      else if t = ex_text_a
        then Inr ([''name'' \<mapsto> YStr ''Test Agent'', ''description'' \<mapsto> YStr ''d''], ''body a'')
      else if t = ex_text_b then Inr ([''name'' \<mapsto> YStr ''bar''], ''body b'')
      else if t = ex_text_d
        then Inr ([''name'' \<mapsto> YStr ''keep'', ''description'' \<mapsto> YStr ''k''], ''body d'')
      else if t = ex_text_l
        then Inr ([''name'' \<mapsto> YStr ''lister'', ''description'' \<mapsto> YSeq 0 []], ''body l'')
      else Inl (Error ''YAMLException'' ''bad indentation of a mapping entry''))"

definition ex_glob :: "fs \<Rightarrow> string \<Rightarrow> js_error + string list" where
  "ex_glob fs pat =
     (if pat = ''/p/.claude/agents/**/*.md''
      then Inr (filter (existsSync fs)
                  [''/p/.claude/agents/a.md'', ''/p/.claude/agents/sub/b.md'',
                   ''/p/.claude/agents/c.md'', ''/p/.claude/agents/d.md'',
                   ''/p/.claude/agents/l.md'', ''/p/.claude/agents/m.md''])
      else if pat = ''/p/.claude/commands/**/*.md''
      then Inr (filter (existsSync fs)
                  [''/p/.claude/commands/old-agent.md'', ''/p/.claude/commands/notes.md'',
                   ''/p/.claude/commands/sub/test-agent.md'', ''/p/.claude/commands/keep.md'',
                   ''/p/.claude/commands/test-agent.md''])
      else Inl (Error ''Error'' ''EACCES: permission denied, scandir''))"

definition ex_env :: "(string \<rightharpoonup> parsed) env" where
  "ex_env = \<lparr>matter = cached_matter ex_parse, glob = ex_glob,
              join = (\<lambda>a b. a @ ''/'' @ b),
              relative = (\<lambda>base p. drop (Suc (length base)) p),
              homedir = ''/h'', cwd = ''/p''\<rparr>"

definition ex_fs :: fs where
  "ex_fs =
     [''/p/.claude/agents'' \<mapsto> Dir,
      ''/p/.claude/agents/a.md'' \<mapsto> File ex_text_a,
      ''/p/.claude/agents/sub/b.md'' \<mapsto> File ex_text_b,
      ''/p/.claude/agents/c.md'' \<mapsto> File ex_text_c,
      ''/p/.claude/agents/d.md'' \<mapsto> File ex_text_d,
      ''/p/.claude/commands'' \<mapsto> Dir,
      ''/p/.claude/commands/old-agent.md'' \<mapsto> File (''<!-- ccsa:generated -->'' @ [nl] @ ''old''),
      ''/p/.claude/commands/notes.md'' \<mapsto> File ''my notes'',
      ''/p/.claude/commands/sub/test-agent.md'' \<mapsto> File ''Generated by cc-slash-agents'']"

text \<open>The same world with a hand-written command where the first agent's command would go.\<close>

definition ex_fs_manual :: fs where
  "ex_fs_manual = ex_fs(''/p/.claude/commands/test-agent.md'' \<mapsto> File ''hand written'')"

text \<open>The same world with a generated command of the second agent.\<close>

definition ex_fs_keep :: fs where
  "ex_fs_keep = ex_fs(''/p/.claude/commands/keep.md'' \<mapsto> File ''Generated by cc-slash-agents'')"

text \<open>The same world with an agent whose description is an empty list.\<close>

definition ex_fs_list :: fs where
  "ex_fs_list = ex_fs(''/p/.claude/agents/l.md'' \<mapsto> File ex_text_l)"

text \<open>A project whose only agent file is the malformed one of the repository's tests.\<close>

definition ex_fs_malformed :: fs where
  "ex_fs_malformed =
     [''/p/.claude/agents'' \<mapsto> Dir,
      ''/p/.claude/agents/m.md'' \<mapsto> File ex_text_m]"

text \<open>
  A project with one agent and, where its command would go, a hand-written command, and
  the entry and the plan that the analysis of a sync run makes of them.
\<close>

definition ex_fs_hand :: fs where
  "ex_fs_hand =
     [''/p/.claude/agents'' \<mapsto> Dir,
      ''/p/.claude/agents/a.md'' \<mapsto> File ex_text_a,
      ''/p/.claude/commands'' \<mapsto> Dir,
      ''/p/.claude/commands/test-agent.md'' \<mapsto> File ''hand written'']"

definition ex_agent_a :: md_file where
  "ex_agent_a = \<lparr>path = ''/p/.claude/agents/a.md'', relativePath = ''a.md'',
                  frontmatter = [''name'' \<mapsto> YStr ''Test Agent'', ''description'' \<mapsto> YStr ''d''],
                  content = ''body a'', scope = ''project''\<rparr>"

definition ex_plan_a :: plan where
  "ex_plan_a = \<lparr>toCreate = [ex_agent_a], toUpdate = [], toDelete = []\<rparr>"

text \<open>A generator that fails on every agent.\<close>

definition ex_failing_generator :: generator where
  "ex_failing_generator agent targetScope force fs =
     (fs, Inl (Error ''Error'' ''EIO: i/o error, write''))"

text \<open>
  Resolvers for the callers, with the two suffix schemes. Under both the retry always
  ends, so the second case does not arise.
\<close>

definition hyphen_resolver :: resolver where
  "hyphen_resolver agents =
     (case resolveNamingConflicts hyphen_suffix agents of
        Some nameMap \<Rightarrow> Inr nameMap
      | None \<Rightarrow> Inr [])"

text \<open>The name derivation for the callers, on the text printed for the key.\<close>

definition spec_namer :: namer where
  "spec_namer agentName = Inr (generateCommandName (show_key agentName))"

text \<open>An agent entry with a given logical name, for the examples of the name resolver.\<close>

definition ex_agent :: "string \<Rightarrow> md_file" where
  "ex_agent n = \<lparr>path = [], relativePath = [],
                 frontmatter = [''name'' \<mapsto> YStr n, ''description'' \<mapsto> YStr ''d''],
                 content = [], scope = ''project''\<rparr>"

section \<open>Properties of the string functions\<close>

lemma str_includes_sublist: "str_includes c s \<longleftrightarrow> sublist s c"
  by (induction c) (auto simp: sublist_Cons_right)

lemma str_includes_iff: "str_includes c s \<longleftrightarrow> (\<exists>pre post. c = pre @ s @ post)"
  by (simp add: str_includes_sublist sublist_def)

section \<open>Properties of the generated-file test\<close>

text \<open>
  C5. For every path, \<open>isGeneratedFile\<close> returns normally, never with an error; the
  value is true exactly when the path holds a readable file whose text contains the
  phrase \<^verbatim>\<open>Generated by cc-slash-agents\<close> or the marker \<^verbatim>\<open><!-- ccsa:generated -->\<close>
  somewhere. A missing path, a directory, an unreadable file and a text with neither
  token all give false.
\<close>

theorem isGeneratedFile_iff:
  "isGeneratedFile fs p =
     Inr (\<exists>content. fs p = Some (File content) \<and>
            ((\<exists>pre post. content = pre @ ''Generated by cc-slash-agents'' @ post) \<or>
             (\<exists>pre post. content = pre @ ''<!-- ccsa:generated -->'' @ post)))"
  by (auto simp: isGeneratedFile_def existsSync_def readFileSync_def str_includes_iff
        signature_phrase_def signature_marker_def
      split: option.splits node.splits)


section \<open>Properties of the repair pass\<close>

text \<open>
  The line pattern accepts a line made of white space, a key, a colon, white space and a
  value without line terminator, and splits it there.
\<close>

lemma key_val_match_shape:
  assumes "\<forall>c\<in>set ws. is_space c" and "k \<noteq> []" and "\<forall>c\<in>set k. is_key_char c"
    and "\<forall>c\<in>set sp. is_space c" and "\<not> list_ex is_line_terminator v"
    and "v = [] \<or> \<not> is_space (hd v)"
  shows "key_val_match (ws @ k @ CHR '':'' # sp @ v) = Some (ws @ k, v)"
proof -
  have ks: "\<forall>c\<in>set k. \<not> is_space c"
    using assms(3) by (auto simp: is_key_char_def is_word_def is_space_def Let_def)
  have nk: "\<not> is_key_char CHR '':''" by (simp add: is_key_char_def is_word_def)
  from assms(2) obtain k0 k' where k: "k = k0 # k'" by (cases k) auto
  have t1: "takeWhile is_space (ws @ k @ CHR '':'' # sp @ v) = ws"
    using assms(1) ks k by (simp add: takeWhile_append2)
  have d1: "dropWhile is_space (ws @ k @ CHR '':'' # sp @ v) = k @ CHR '':'' # sp @ v"
    using assms(1) ks k by (simp add: dropWhile_append2)
  have t2: "takeWhile is_key_char (k @ CHR '':'' # sp @ v) = k"
    using assms(3) nk by (simp add: takeWhile_append2)
  have d2: "dropWhile is_key_char (k @ CHR '':'' # sp @ v) = CHR '':'' # sp @ v"
    using assms(3) nk by (simp add: dropWhile_append2)
  have d3: "dropWhile is_space (sp @ v) = v"
    using assms(4,6) by (cases v) (simp_all add: dropWhile_append2)
  show ?thesis
    using assms(2,5) by (simp add: key_val_match_def t1 d1 t2 d2 d3 Let_def)
qed

text \<open>
  C2. The repair pass is to quote a value so that the decoder reads the original text
  back. It does not on two inputs the program can meet. The repaired header is spliced in
  with \<^verbatim>\<open>String.prototype.replace\<close>, which expands \<^verbatim>\<open>$$\<close> in the replacement, so the value
  \<^verbatim>\<open>Price: $$5\<close> comes back with one dollar sign. And only double quotes are escaped, not
  backslashes, so the value \<^verbatim>\<open>dir: C:\\<close> is quoted into a scalar whose closing quote is
  escaped.
\<close>

theorem fixFrontmatter_dollar_and_backslash:
  "fixFrontmatter ''---\<newline>description: Price: $$5\<newline>---\<newline>body'' =
     ''---\<newline>description: '' @ [dq] @ ''Price: $5'' @ [dq] @ ''\<newline>---\<newline>body'' \<and>
   fixFrontmatter (''---\<newline>description: dir: C:'' @ [bsl] @ ''\<newline>---\<newline>body'') =
     ''---\<newline>description: '' @ [dq] @ ''dir: C:'' @ [bsl] @ [dq] @ ''\<newline>---\<newline>body''"
  by code_simp

section \<open>Properties of the name derivation\<close>

lemma norm_char_idem: "norm_char (norm_char c) = norm_char c"
  by (auto simp: norm_char_def is_alnum_def to_lower_def Let_def)

lemma squeeze_hyphens_Cons: "\<exists>t. squeeze_hyphens (d # r) = d # t"
  by (induction "d # r" arbitrary: d r rule: squeeze_hyphens.induct) auto

lemma squeeze_hyphens_idem: "squeeze_hyphens (squeeze_hyphens xs) = squeeze_hyphens xs"
proof (induction xs rule: squeeze_hyphens.induct)
  case (1 c d r)
  obtain t where t: "squeeze_hyphens (d # r) = d # t"
    using squeeze_hyphens_Cons by blast
  show ?case
  proof (cases "c = CHR ''-'' \<and> d = CHR ''-''")
    case True
    with 1 show ?thesis by simp
  next
    case False
    with 1 have "squeeze_hyphens (d # t) = d # t" by (simp add: t)
    with False show ?thesis by (auto simp: t)
  qed
qed simp_all

lemma set_squeeze_hyphens: "set (squeeze_hyphens xs) \<subseteq> set xs"
  by (induction xs rule: squeeze_hyphens.induct) auto

lemma map_norm_char_squeeze:
  "map norm_char (squeeze_hyphens (map norm_char x)) = squeeze_hyphens (map norm_char x)"
proof (rule map_idI)
  fix y assume "y \<in> set (squeeze_hyphens (map norm_char x))"
  then have "y \<in> set (map norm_char x)" using set_squeeze_hyphens by blast
  then show "norm_char y = y" by (auto simp: norm_char_idem)
qed

text \<open>
  C9. The derived command name is a function of the logical name alone, and deriving is
  idempotent: a derived name derives to itself.
\<close>

theorem generateCommandName_idempotent:
  "generateCommandName (generateCommandName x) = generateCommandName x"
  by (simp add: generateCommandName_def map_norm_char_squeeze squeeze_hyphens_idem)

section \<open>Properties of parsing and scanning\<close>

lemma truthy_iff:
  "truthy v \<longleftrightarrow>
     v \<notin> {None, Some YNull, Some (YBool False), Some (YNum ''0''), Some (YNum ''NaN''),
          Some (YStr [])}"
  by (cases v rule: truthy.cases) auto

lemma parseAgentFile_decoded:
  assumes "fs p = Some (File text)"
    and "decode_or_repair E p text s0 = (s1, l, Inr (fm, body))"
  shows "parseAgentFile E fs p base s s0 =
     (if truthy (fm ''name'') \<and> truthy (fm ''description'')
      then (s1, l, Inr (Some \<lparr>path = p, relativePath = relative E base p, frontmatter = fm,
                               content = body, scope = s\<rparr>))
      else (s1,
            l @ [(Debug, ''Skipping '' @ p @ '': missing required frontmatter (name, description)'')],
            Inr None))"
  using assms by (simp add: parseAgentFile_def existsSync_def readFileSync_def)

lemma decode_or_repair_log:
  "decode_or_repair E p text s0 = (s1, l, r) \<Longrightarrow>
     l = [] \<or> l = [(Debug, ''Recovered malformed agent file: '' @ p)]"
  by (auto simp: decode_or_repair_def split: prod.splits sum.splits)

lemma parseAgentFile_Some:
  "parseAgentFile E fs p base s s0 = (s1, l, Inr (Some a)) \<Longrightarrow>
     path a = p \<and> scope a = s \<and> truthy (frontmatter a ''name'') \<and> truthy (frontmatter a ''description'')"
  by (auto simp: parseAgentFile_def split: if_splits sum.splits prod.splits)

lemma agent_file_step_truthy:
  assumes "\<forall>a\<in>set (fst (snd s)). truthy (frontmatter a ''name'') \<and> truthy (frontmatter a ''description'')"
  shows "\<forall>a\<in>set (fst (snd (agent_file_step E fs d sc f s))).
           truthy (frontmatter a ''name'') \<and> truthy (frontmatter a ''description'')"
proof -
  obtain st agents lg where s: "s = (st, agents, lg)" by (cases s) auto
  obtain st' l r where p: "parseAgentFile E fs f d sc st = (st', l, r)"
    by (cases "parseAgentFile E fs f d sc st") auto
  show ?thesis
  proof (cases r)
    case (Inl e)
    with assms s p show ?thesis by (simp add: agent_file_step_def)
  next
    case (Inr res)
    show ?thesis
    proof (cases res)
      case None
      with assms s p Inr show ?thesis by (simp add: agent_file_step_def)
    next
      case (Some a)
      with p Inr have "truthy (frontmatter a ''name'') \<and> truthy (frontmatter a ''description'')"
        using parseAgentFile_Some [of E fs f d sc st st' l a] by simp
      with assms s p Inr Some show ?thesis by (simp add: agent_file_step_def)
    qed
  qed
qed

lemma agent_files_loop_truthy:
  "\<forall>a\<in>set (fst (snd s)). truthy (frontmatter a ''name'') \<and> truthy (frontmatter a ''description'') \<Longrightarrow>
   \<forall>a\<in>set (fst (snd (agent_files_loop E fs d sc files s))).
      truthy (frontmatter a ''name'') \<and> truthy (frontmatter a ''description'')"
proof (induction files arbitrary: s)
  case Nil
  then show ?case by simp
next
  case (Cons f files)
  from Cons.IH [OF agent_file_step_truthy [OF Cons.prems]] show ?case by simp
qed

lemma agent_dir_step_truthy:
  assumes "\<forall>a\<in>set (fst (snd s)). truthy (frontmatter a ''name'') \<and> truthy (frontmatter a ''description'')"
  shows "\<forall>a\<in>set (fst (snd (agent_dir_step E fs d s))).
           truthy (frontmatter a ''name'') \<and> truthy (frontmatter a ''description'')"
proof -
  obtain dir sc where d: "d = (dir, sc)" by (cases d) auto
  obtain st agents lg where s: "s = (st, agents, lg)" by (cases s) auto
  show ?thesis
  proof (cases "glob E fs (md_pattern E dir)")
    case (Inl e)
    with assms d s show ?thesis by (simp add: agent_dir_step_def)
  next
    case (Inr files)
    have "\<forall>a\<in>set (fst (snd (agent_files_loop E fs dir sc files
              (st, agents, lg @ [(Debug, ''Scanning agents directory: '' @ dir)])))).
            truthy (frontmatter a ''name'') \<and> truthy (frontmatter a ''description'')"
      by (rule agent_files_loop_truthy) (use assms s in simp)
    with d s Inr show ?thesis by (simp add: agent_dir_step_def)
  qed
qed

lemma agent_dirs_loop_truthy:
  "\<forall>a\<in>set (fst (snd s)). truthy (frontmatter a ''name'') \<and> truthy (frontmatter a ''description'') \<Longrightarrow>
   \<forall>a\<in>set (fst (snd (agent_dirs_loop E fs dirs s))).
      truthy (frontmatter a ''name'') \<and> truthy (frontmatter a ''description'')"
proof (induction dirs arbitrary: s)
  case Nil
  then show ?case by simp
next
  case (Cons d dirs)
  from Cons.IH [OF agent_dir_step_truthy [OF Cons.prems]] show ?case by simp
qed

lemma discoverAgents_truthy:
  "a \<in> set (fst (snd (discoverAgents E fs sc st))) \<Longrightarrow>
     truthy (frontmatter a ''name'') \<and> truthy (frontmatter a ''description'')"
  using agent_dirs_loop_truthy [of "(st, [], [])" E fs "getValidAgentsDirs E fs sc"]
  by (simp add: discoverAgents_def)

text \<open>
  C7. When decoding the raw text of an agent file throws, the parser repairs the text
  once and calls the decoder once more, on the repaired text, in the state the first call
  left; the outcome is decided by that second call alone. When it throws as well, the
  error that reaches the caller is the error of the first call, and the error of the
  second is dropped.
\<close>

theorem parseAgentFile_rethrows_first_error:
  assumes "fs p = Some (File text)" and "matter E st text = (st1, Inl e1)"
  shows "parseAgentFile E fs p base s st =
     (case matter E st1 (fixFrontmatter text) of
        (st2, Inl e2) \<Rightarrow> (st2, [], Inl e1)
      | (st2, Inr (fm, body)) \<Rightarrow>
          (if truthy (fm ''name'') \<and> truthy (fm ''description'')
           then (st2, [(Debug, ''Recovered malformed agent file: '' @ p)],
                 Inr (Some \<lparr>path = p, relativePath = relative E base p, frontmatter = fm,
                            content = body, scope = s\<rparr>))
           else (st2,
                 [(Debug, ''Recovered malformed agent file: '' @ p),
                  (Debug, ''Skipping '' @ p @ '': missing required frontmatter (name, description)'')],
                 Inr None)))"
  using assms
  by (auto simp: parseAgentFile_def existsSync_def readFileSync_def decode_or_repair_def
      split: sum.splits prod.splits)

lemma fixFrontmatter_ex_text_c:
  "fixFrontmatter ex_text_c = ''---\<newline>name: '' @ [dq] @ ''c: d'' @ [dq] @ ''\<newline>  bad\<newline>---\<newline>x''"
  by code_simp

lemma ex_parse_c: "ex_parse ex_text_c = Inl (Error ''YAMLException'' ''bad indentation of a mapping entry'')"
  by (simp add: ex_parse_def ex_text_a_def ex_text_b_def ex_text_c_def ex_text_d_def ex_text_l_def)

lemma ex_parse_fixed_c:
  "ex_parse (fixFrontmatter ex_text_c) = Inl (Error ''YAMLException'' ''bad indentation of a mapping entry'')"
  unfolding fixFrontmatter_ex_text_c
  by (simp add: ex_parse_def ex_text_a_def ex_text_b_def ex_text_d_def ex_text_l_def)

theorem parseAgentFile_rethrows_first_error_witness:
  "snd (parseAgentFile ex_env ex_fs ''/p/.claude/agents/c.md'' ''/p/.claude/agents'' ''project''
          Map.empty) =
     ([], Inl (Error ''YAMLException'' ''bad indentation of a mapping entry''))"
proof -
  have f: "ex_fs ''/p/.claude/agents/c.md'' = Some (File ex_text_c)"
    by (simp add: ex_fs_def)
  have n: "ex_text_c \<noteq> []" "fixFrontmatter ex_text_c \<noteq> []" "fixFrontmatter ex_text_c \<noteq> ex_text_c"
    by (simp_all add: fixFrontmatter_ex_text_c) (simp_all add: ex_text_c_def)
  have m: "matter ex_env Map.empty ex_text_c =
      ([ex_text_c \<mapsto> (Map.empty, ex_text_c)],
       Inl (Error ''YAMLException'' ''bad indentation of a mapping entry''))"
    using n by (simp add: ex_env_def cached_matter_def ex_parse_c)
  have r: "snd (matter ex_env [ex_text_c \<mapsto> (Map.empty, ex_text_c)] (fixFrontmatter ex_text_c)) =
      Inl (Error ''YAMLException'' ''bad indentation of a mapping entry'')"
    using n by (simp add: ex_env_def cached_matter_def ex_parse_fixed_c)
  show ?thesis
    using parseAgentFile_rethrows_first_error
      [where fs = ex_fs and p = "''/p/.claude/agents/c.md''" and E = ex_env and
         base = "''/p/.claude/agents''" and s = "''project''", OF f m] r
    by (simp split: prod.splits sum.splits)
qed

text \<open>
  The malformed file of the repository's tests: its one quoted value opens with a double
  quote, so the repair leaves the text as it is; the second call of the decoder is then
  answered from the cache, with no data and no error, and the file is skipped for its
  missing fields instead of being reported.
\<close>

lemma fixFrontmatter_ex_text_m: "fixFrontmatter ex_text_m = ex_text_m"
  by code_simp

lemma ex_parse_m: "ex_parse ex_text_m = Inl (Error ''YAMLException'' ''bad indentation of a mapping entry'')"
  by (simp add: ex_parse_def ex_text_a_def ex_text_b_def ex_text_m_def ex_text_d_def ex_text_l_def)

lemma parseAgentFile_cached_retry:
  "snd (parseAgentFile ex_env ex_fs_malformed ''/p/.claude/agents/m.md'' ''/p/.claude/agents''
          ''project'' Map.empty) =
     ([(Debug, ''Recovered malformed agent file: /p/.claude/agents/m.md''),
       (Debug, ''Skipping /p/.claude/agents/m.md: missing required frontmatter (name, description)'')],
      Inr None)"
proof -
  have n: "ex_text_m \<noteq> []" by (simp add: ex_text_m_def)
  show ?thesis
    using n
    by (simp add: parseAgentFile_def existsSync_def readFileSync_def ex_fs_malformed_def
        decode_or_repair_def ex_env_def cached_matter_def ex_parse_m fixFrontmatter_ex_text_m)
qed

text \<open>
  C4, as amended. Every entry of the catalog that \<open>discoverAgents\<close> returns has a \<open>name\<close>
  and a \<open>description\<close> that pass the truth test of the program, which refuses exactly an
  absent field, \<^verbatim>\<open>null\<close>, \<^verbatim>\<open>false\<close>, \<^verbatim>\<open>0\<close>, \<^verbatim>\<open>NaN\<close> and the empty string. A readable file whose
  header decodes gives an entry exactly when both fields pass the test; otherwise
  \<open>parseAgentFile\<close> returns \<open>null\<close> without throwing, with logger calls at debug level only,
  and the scan goes on with the catalog as it was, adding those debug lines and no
  warning.
\<close>

theorem discoverAgents_mandatory_fields:
  assumes "discoverAgents E fs sc st = (st', agents, lg)"
  shows "(\<forall>a\<in>set agents. truthy (frontmatter a ''name'') \<and> truthy (frontmatter a ''description'')) \<and>
         (\<forall>v. truthy v \<longleftrightarrow>
                v \<notin> {None, Some YNull, Some (YBool False), Some (YNum ''0''), Some (YNum ''NaN''),
                     Some (YStr [])}) \<and>
         (\<forall>p text s0 s1 l fm body base s.
            fs p = Some (File text) \<and> decode_or_repair E p text s0 = (s1, l, Inr (fm, body)) \<longrightarrow>
            parseAgentFile E fs p base s s0 =
              (if truthy (fm ''name'') \<and> truthy (fm ''description'')
               then (s1, l, Inr (Some \<lparr>path = p, relativePath = relative E base p,
                                        frontmatter = fm, content = body, scope = s\<rparr>))
               else (s1,
                     l @ [(Debug, ''Skipping '' @ p @
                                    '': missing required frontmatter (name, description)'')],
                     Inr None)) \<and>
            (l = [] \<or> l = [(Debug, ''Recovered malformed agent file: '' @ p)])) \<and>
         (\<forall>p d s s0 s1 l found lg0.
            parseAgentFile E fs p d s s0 = (s1, l, Inr None) \<longrightarrow>
            agent_file_step E fs d s p (s0, found, lg0) = (s1, found, lg0 @ l))"
proof (intro conjI allI impI)
  show "\<forall>a\<in>set agents. truthy (frontmatter a ''name'') \<and> truthy (frontmatter a ''description'')"
    using discoverAgents_truthy [of _ E fs sc st] assms by simp
next
  fix v
  show "truthy v \<longleftrightarrow>
      v \<notin> {None, Some YNull, Some (YBool False), Some (YNum ''0''), Some (YNum ''NaN''),
           Some (YStr [])}"
    by (rule truthy_iff)
next
  fix p raw s0 s1 l fm body base s
  assume h: "fs p = Some (File raw) \<and> decode_or_repair E p raw s0 = (s1, l, Inr (fm, body))"
  then show "parseAgentFile E fs p base s s0 =
              (if truthy (fm ''name'') \<and> truthy (fm ''description'')
               then (s1, l, Inr (Some \<lparr>path = p, relativePath = relative E base p,
                                        frontmatter = fm, content = body, scope = s\<rparr>))
               else (s1,
                     l @ [(Debug, ''Skipping '' @ p @
                                    '': missing required frontmatter (name, description)'')],
                     Inr None))"
    using parseAgentFile_decoded [of fs p raw E s0 s1 l fm body base s] by simp
  from h show "l = [] \<or> l = [(Debug, ''Recovered malformed agent file: '' @ p)]"
    using decode_or_repair_log [of E p raw s0 s1 l] by simp
next
  fix p d s s0 s1 l found lg0
  assume "parseAgentFile E fs p d s s0 = (s1, l, Inr None)"
  then show "agent_file_step E fs d s p (s0, found, lg0) = (s1, found, lg0 @ l)"
    by (simp add: agent_file_step_def)
qed

theorem discoverAgents_mandatory_fields_witness:
  "map path (fst (snd (discoverAgents ex_env ex_fs ''project'' Map.empty))) =
     [''/p/.claude/agents/a.md'', ''/p/.claude/agents/d.md''] \<and>
   snd (parseAgentFile ex_env ex_fs ''/p/.claude/agents/sub/b.md'' ''/p/.claude/agents'' ''project''
          Map.empty) =
     ([(Debug, ''Skipping /p/.claude/agents/sub/b.md: missing required frontmatter (name, description)'')],
      Inr None)"
proof -
  have c: "map path (fst (snd (discoverAgents ex_env ex_fs ''project'' Map.empty))) =
      [''/p/.claude/agents/a.md'', ''/p/.claude/agents/d.md'']"
    by code_simp
  have d: "discoverAgents ex_env ex_fs ''project'' Map.empty =
      (fst (discoverAgents ex_env ex_fs ''project'' Map.empty),
       fst (snd (discoverAgents ex_env ex_fs ''project'' Map.empty)),
       snd (snd (discoverAgents ex_env ex_fs ''project'' Map.empty)))"
    by simp
  have nb: "ex_text_b \<noteq> []" "ex_text_b \<noteq> ex_text_a" "ex_text_a \<noteq> ex_text_b"
    by (simp_all add: ex_text_a_def ex_text_b_def)
  have pb: "ex_parse ex_text_b = Inr ([''name'' \<mapsto> YStr ''bar''], ''body b'')"
    using nb by (simp add: ex_parse_def) (simp add: ex_text_b_def)
  have h: "ex_fs ''/p/.claude/agents/sub/b.md'' = Some (File ex_text_b) \<and>
      decode_or_repair ex_env ''/p/.claude/agents/sub/b.md'' ex_text_b Map.empty =
        ([ex_text_b \<mapsto> ([''name'' \<mapsto> YStr ''bar''], ''body b'')], [],
         Inr ([''name'' \<mapsto> YStr ''bar''], ''body b''))"
    using nb by (simp add: ex_fs_def decode_or_repair_def ex_env_def cached_matter_def pb)
  from discoverAgents_mandatory_fields [OF d] h
  have "parseAgentFile ex_env ex_fs ''/p/.claude/agents/sub/b.md'' ''/p/.claude/agents'' ''project''
          Map.empty =
     (if truthy ([''name'' \<mapsto> YStr ''bar''] ''name'') \<and>
         truthy ([''name'' \<mapsto> YStr ''bar''] ''description'')
      then ([ex_text_b \<mapsto> ([''name'' \<mapsto> YStr ''bar''], ''body b'')], [],
            Inr (Some \<lparr>path = ''/p/.claude/agents/sub/b.md'',
                       relativePath = relative ex_env ''/p/.claude/agents'' ''/p/.claude/agents/sub/b.md'',
                       frontmatter = [''name'' \<mapsto> YStr ''bar''], content = ''body b'',
                       scope = ''project''\<rparr>))
      else ([ex_text_b \<mapsto> ([''name'' \<mapsto> YStr ''bar''], ''body b'')],
            [] @ [(Debug, ''Skipping '' @ ''/p/.claude/agents/sub/b.md'' @
                           '': missing required frontmatter (name, description)'')],
            Inr None))"
    by blast
  then have "snd (parseAgentFile ex_env ex_fs ''/p/.claude/agents/sub/b.md'' ''/p/.claude/agents''
          ''project'' Map.empty) =
     ([(Debug, ''Skipping /p/.claude/agents/sub/b.md: missing required frontmatter (name, description)'')],
      Inr None)"
    by simp
  with c show ?thesis
    by (intro conjI)
qed

text \<open>
  The claim as stated fails: an agent file whose description is the empty list
  (\<^verbatim>\<open>description: []\<close>) gives an entry, since an empty array passes the truth test.
\<close>

theorem discoverAgents_empty_list_description:
  "map (\<lambda>a. (path a, frontmatter a ''description''))
     (fst (snd (discoverAgents ex_env ex_fs_list ''project'' Map.empty))) =
     [(''/p/.claude/agents/a.md'', Some (YStr ''d'')),
      (''/p/.claude/agents/d.md'', Some (YStr ''k'')),
      (''/p/.claude/agents/l.md'', Some (YSeq 0 []))]"
  by code_simp

section \<open>Properties of the name resolver\<close>

lemma of_char_digit_char: "d < 10 \<Longrightarrow> of_char (digit_char d) = 48 + d"
  by (simp add: digit_char_def)

lemma dec_value_dec_nat: "dec_value (dec_nat n) = n"
proof (induction n rule: dec_nat.induct)
  case (1 n)
  show ?case
  proof (cases "n < 10")
    case True
    then show ?thesis
      by (subst dec_nat.simps) (simp add: dec_value_def of_char_digit_char)
  next
    case False
    with 1 have "dec_value (dec_nat (n div 10)) = n div 10" by simp
    with False show ?thesis
      by (subst dec_nat.simps) (simp add: dec_value_def of_char_digit_char)
  qed
qed

lemma dec_nat_inj: "dec_nat a = dec_nat b \<Longrightarrow> a = b"
  by (metis dec_value_dec_nat)

lemma hyphen_suffix_inj: "inj (hyphen_suffix base)"
  by (rule injI) (simp add: hyphen_suffix_def dec_nat_inj)






subsection \<open>The retry ends when the scheme does not repeat itself\<close>

lemma finite_suffixes: "inj (sfx base) \<Longrightarrow> finite {k. sfx base k \<in> set claimed}"
proof -
  assume i: "inj (sfx base)"
  have "{k. sfx base k \<in> set claimed} = sfx base -` set claimed" by auto
  moreover have "finite (sfx base -` set claimed)"
    using i by (intro finite_vimageI) simp_all
  ultimately show ?thesis by simp
qed

lemma retry_suffix_Some:
  assumes i: "inj (sfx base)"
  shows "\<exists>k\<ge>n. retry_suffix sfx claimed base n = Some (sfx base k) \<and> sfx base k \<notin> set claimed"
proof (induction "card {k. n \<le> k \<and> sfx base k \<in> set claimed}" arbitrary: n rule: less_induct)
  case less
  show ?case
  proof (cases "sfx base n \<in> set claimed")
    case False
    then have "retry_suffix sfx claimed base n = Some (sfx base n)"
      by (subst retry_suffix.simps) simp
    with False show ?thesis by (intro exI [of _ n]) simp
  next
    case True
    have fin: "finite {k. n \<le> k \<and> sfx base k \<in> set claimed}"
      using finite_suffixes [where sfx = sfx and base = base and claimed = claimed, OF i] by (rule rev_finite_subset) auto
    have "n \<in> {k. n \<le> k \<and> sfx base k \<in> set claimed}"
      and "n \<notin> {k. Suc n \<le> k \<and> sfx base k \<in> set claimed}"
      and "{k. Suc n \<le> k \<and> sfx base k \<in> set claimed} \<subseteq> {k. n \<le> k \<and> sfx base k \<in> set claimed}"
      using True by auto
    then have "{k. Suc n \<le> k \<and> sfx base k \<in> set claimed} \<subset> {k. n \<le> k \<and> sfx base k \<in> set claimed}"
      by blast
    then have "card {k. Suc n \<le> k \<and> sfx base k \<in> set claimed} < card {k. n \<le> k \<and> sfx base k \<in> set claimed}"
      using fin by (rule psubset_card_mono [rotated])
    from less [OF this] obtain k where k: "Suc n \<le> k"
        "retry_suffix sfx claimed base (Suc n) = Some (sfx base k)" "sfx base k \<notin> set claimed"
      by blast
    from True have "retry_suffix sfx claimed base n = retry_suffix sfx claimed base (Suc n)"
      by (subst retry_suffix.simps) simp
    with k show ?thesis by (intro exI [of _ k]) simp
  qed
qed

lemma final_name_Some:
  assumes i: "inj (sfx d)"
  shows "\<exists>f. final_name sfx claimed d = Some f \<and> f \<notin> set claimed \<and>
           (d \<notin> set claimed \<longrightarrow> f = d) \<and> (d \<in> set claimed \<longrightarrow> (\<exists>k\<ge>2. f = sfx d k))"
proof (cases "d \<in> set claimed")
  case True
  from retry_suffix_Some [where sfx = sfx and base = d and n = 2 and claimed = claimed, OF i] obtain k where
    "2 \<le> k" "retry_suffix sfx claimed d 2 = Some (sfx d k)" "sfx d k \<notin> set claimed"
    by blast
  with True show ?thesis by (auto simp: final_name_def)
next
  case False
  then show ?thesis by (simp add: final_name_def)
qed

subsection \<open>The loop\<close>

lemma resolve_loop_step:
  "final_name sfx c (generateCommandName (field_string a ''name'')) = Some f \<Longrightarrow>
     resolve_loop sfx (a # xs) (c, m) =
       resolve_loop sfx xs (f # c, AList.update (frontmatter a ''name'') f m)"
  by simp


lemma resolve_loop_total:
  assumes i: "\<And>base. inj (sfx base)"
  shows "\<exists>c' m'. resolve_loop sfx xs (c, m) = Some (c', m')"
proof (induction xs arbitrary: c m)
  case Nil
  then show ?case by simp
next
  case (Cons a xs)
  from final_name_Some [where sfx = sfx and d = "generateCommandName (field_string a ''name'')" and claimed = c, OF i]
  obtain f where f: "final_name sfx c (generateCommandName (field_string a ''name'')) = Some f"
    by blast
  from Cons [of "f # c" "AList.update (frontmatter a ''name'') f m"] show ?case
    by (simp only: resolve_loop_step [OF f])
qed
















lemma same_name_same_identifier:
  "frontmatter a ''name'' = frontmatter b ''name'' \<Longrightarrow>
     map_of nameMap (frontmatter a ''name'') = map_of nameMap (frontmatter b ''name'')"
  by simp

text \<open>
  Why the scheme matters for the unsuffixed name: with the hyphen of the spec's example a
  suffixed form is itself a derived name. With the agents \<^verbatim>\<open>A\<close>, \<^verbatim>\<open>a\<close>, \<^verbatim>\<open>a-2\<close>, \<^verbatim>\<open>A-2\<close> in this
  order, \<^verbatim>\<open>a\<close> is given \<^verbatim>\<open>a-2\<close>, which the agent \<^verbatim>\<open>a-2\<close>, the first to derive it, then cannot
  keep; with the underscore the agent \<^verbatim>\<open>a-2\<close> keeps it.
\<close>

lemma suffix_scheme_examples:
  "resolveNamingConflicts hyphen_suffix
     [ex_agent ''A'', ex_agent ''a'', ex_agent ''a-2'', ex_agent ''A-2''] =
     Some [(Some (YStr ''A''), ''a''), (Some (YStr ''a''), ''a-2''),
           (Some (YStr ''a-2''), ''a-2-2''), (Some (YStr ''A-2''), ''a-2-3'')]"
  "resolveNamingConflicts underscore_suffix
     [ex_agent ''A'', ex_agent ''a'', ex_agent ''a-2'', ex_agent ''A-2''] =
     Some [(Some (YStr ''A''), ''a''), (Some (YStr ''a''), ''a_2''),
           (Some (YStr ''a-2''), ''a-2''), (Some (YStr ''A-2''), ''a-2_2'')]"
  by code_simp+

lemma hyphen_resolver_returns:
  "\<exists>nameMap. resolveNamingConflicts hyphen_suffix agents = Some nameMap \<and>
             hyphen_resolver agents = Inr nameMap"
proof -
  obtain c' m' where "resolve_loop hyphen_suffix agents ([], []) = Some (c', m')"
    using resolve_loop_total [where sfx = hyphen_suffix and xs = agents and c = "[]" and m = "[]"]
      hyphen_suffix_inj by blast
  then show ?thesis
    by (simp add: resolveNamingConflicts_def hyphen_resolver_def)
qed

section \<open>Properties of the generate command\<close>

lemma already_exists_message:
  "str_includes (''Command file already exists: '' @ p) ''already exists''"
proof -
  have "''Command file already exists: '' @ p = ''Command file '' @ ''already exists'' @ ('': '' @ p)"
    by simp
  then show ?thesis
    unfolding str_includes_iff by blast
qed

lemma generateCommand_exists:
  "existsSync fs (command_path E a ts) \<Longrightarrow>
     generateCommand E a ts False fs =
       (fs, Inl (Error ''Error'' (''Command file already exists: '' @ command_path E a ts)))"
  by (simp add: generateCommand_def Let_def)

lemma generateCommand_writes:
  "fs (command_path E a ts) = None \<Longrightarrow> fs (commandsDirFor E ts) = Some Dir \<Longrightarrow>
     generateCommand E a ts force fs =
       (fs(command_path E a ts \<mapsto> File (render_command a)),
        Inr (generateCommandName (field_string a ''name''), command_path E a ts))"
  by (simp add: generateCommand_def Let_def existsSync_def ensure_dir_def writeFileSync_def)

lemma generateCommand_no_force_preserves:
  "fs q = Some n \<Longrightarrow> fst (generateCommand E a ts False fs) q = Some n"
  by (auto simp: generateCommand_def Let_def ensure_dir_def writeFileSync_def existsSync_def
      split: option.splits node.splits sum.splits if_splits)

lemma generate_step_preserves:
  "fs q = Some n \<Longrightarrow>
     fst (generate_step (generateCommand E) nameMap sc False a (fs, g, s, e)) q = Some n"
  using generateCommand_no_force_preserves [of fs q n E a "target_scope sc"]
  by (auto simp: generate_step_def Let_def split: prod.splits sum.splits)

lemma generate_step_count:
  "generate_step G nameMap sc force a (fs, g, s, e) = (fs', g', s', e') \<Longrightarrow>
     length g' + length s' + length e' = Suc (length g + length s + length e)"
  by (auto simp: generate_step_def Let_def split: prod.splits sum.splits if_splits)

lemma generate_step_skipped_mono:
  "generate_step G nameMap sc force a (fs, g, s, e) = (fs', g', s', e') \<Longrightarrow> set s \<subseteq> set s'"
  by (auto simp: generate_step_def Let_def split: prod.splits sum.splits if_splits)

lemma generate_step_skips:
  "existsSync fs (command_path E a (target_scope sc)) \<Longrightarrow>
     generate_step (generateCommand E) nameMap sc False a (fs, g, s, e) =
       (fs, g, s @ [name_or_self nameMap (frontmatter a ''name'')], e)"
  by (simp add: generate_step_def generateCommand_exists already_exists_message)

lemma generate_step_writes:
  "fs (command_path E a (target_scope sc)) = None \<Longrightarrow>
   fs (commandsDirFor E (target_scope sc)) = Some Dir \<Longrightarrow>
     generate_step (generateCommand E) nameMap sc force a (fs, g, s, e) =
       (fs(command_path E a (target_scope sc) \<mapsto> File (render_command a)),
        g @ [generateCommandName (field_string a ''name'')], s, e)"
  by (simp add: generate_step_def generateCommand_writes)

lemma generate_loop_count:
  "generate_loop G nameMap sc force agents (fs, g, s, e) = (fs', g', s', e') \<Longrightarrow>
     length g' + length s' + length e' = length g + length s + length e + length agents"
proof (induction agents arbitrary: fs g s e)
  case Nil
  then show ?case by simp
next
  case (Cons a agents)
  obtain fs1 g1 s1 e1 where st: "generate_step G nameMap sc force a (fs, g, s, e) = (fs1, g1, s1, e1)"
    by (cases "generate_step G nameMap sc force a (fs, g, s, e)") auto
  with Cons.prems have "generate_loop G nameMap sc force agents (fs1, g1, s1, e1) = (fs', g', s', e')"
    by simp
  from Cons.IH [OF this] generate_step_count [OF st] show ?case by simp
qed

lemma generate_loop_skipped_mono:
  "generate_loop G nameMap sc force agents (fs, g, s, e) = (fs', g', s', e') \<Longrightarrow> set s \<subseteq> set s'"
proof (induction agents arbitrary: fs g s e)
  case Nil
  then show ?case by simp
next
  case (Cons a agents)
  obtain fs1 g1 s1 e1 where st: "generate_step G nameMap sc force a (fs, g, s, e) = (fs1, g1, s1, e1)"
    by (cases "generate_step G nameMap sc force a (fs, g, s, e)") auto
  with Cons.prems have "generate_loop G nameMap sc force agents (fs1, g1, s1, e1) = (fs', g', s', e')"
    by simp
  from Cons.IH [OF this] generate_step_skipped_mono [OF st] show ?case by blast
qed

lemma generate_loop_preserves:
  "generate_loop (generateCommand E) nameMap sc False agents (fs, g, s, e) = (fs', g', s', e') \<Longrightarrow>
     fs q = Some n \<Longrightarrow> fs' q = Some n"
proof (induction agents arbitrary: fs g s e)
  case Nil
  then show ?case by simp
next
  case (Cons a agents)
  obtain fs1 g1 s1 e1 where st:
    "generate_step (generateCommand E) nameMap sc False a (fs, g, s, e) = (fs1, g1, s1, e1)"
    by (cases "generate_step (generateCommand E) nameMap sc False a (fs, g, s, e)") auto
  with Cons.prems(1) have l:
    "generate_loop (generateCommand E) nameMap sc False agents (fs1, g1, s1, e1) = (fs', g', s', e')"
    by simp
  have "fs1 q = Some n"
    using generate_step_preserves [where fs = fs and q = q and n = n and E = E and
        nameMap = nameMap and sc = sc and a = a and g = g and s = s and e = e]
      Cons.prems(2) st by simp
  with Cons.IH [OF l] show ?case by simp
qed

lemma generate_loop_skips:
  "generate_loop (generateCommand E) nameMap sc False agents (fs, g, s, e) = (fs', g', s', e') \<Longrightarrow>
     a \<in> set agents \<Longrightarrow> existsSync fs (command_path E a (target_scope sc)) \<Longrightarrow>
     name_or_self nameMap (frontmatter a ''name'') \<in> set s'"
proof (induction agents arbitrary: fs g s e)
  case Nil
  then show ?case by simp
next
  case (Cons b agents)
  obtain fs1 g1 s1 e1 where st:
    "generate_step (generateCommand E) nameMap sc False b (fs, g, s, e) = (fs1, g1, s1, e1)"
    by (cases "generate_step (generateCommand E) nameMap sc False b (fs, g, s, e)") auto
  with Cons.prems(1) have l:
    "generate_loop (generateCommand E) nameMap sc False agents (fs1, g1, s1, e1) = (fs', g', s', e')"
    by simp
  show ?case
  proof (cases "a = b")
    case True
    with st Cons.prems(3) have "name_or_self nameMap (frontmatter a ''name'') \<in> set s1"
      by (auto simp: generate_step_skips)
    with generate_loop_skipped_mono [OF l] show ?thesis by blast
  next
    case False
    with Cons.prems(2) have m: "a \<in> set agents" by simp
    obtain n where n: "fs (command_path E a (target_scope sc)) = Some n"
      using Cons.prems(3) by (auto simp: existsSync_def split: option.splits)
    have "fs1 (command_path E a (target_scope sc)) = Some n"
      using generate_step_preserves [where fs = fs and q = "command_path E a (target_scope sc)" and
          n = n and E = E and nameMap = nameMap and sc = sc and a = b and g = g and s = s and e = e]
        n st by simp
    then have "existsSync fs1 (command_path E a (target_scope sc))"
      by (simp add: existsSync_def)
    from Cons.IH [OF l m this] show ?thesis .
  qed
qed

text \<open>The listing of the agents returns exactly when every description is a string.\<close>

lemma listing_loop_strings:
  "(\<exists>previews. listing_loop agents = Inr previews) \<longleftrightarrow>
     (\<forall>a\<in>set agents. \<exists>s. frontmatter a ''description'' = Some (YStr s))"
proof (induction agents)
  case Nil
  then show ?case by simp
next
  case (Cons a agents)
  show ?case
  proof (cases "\<exists>s. frontmatter a ''description'' = Some (YStr s)")
    case True
    then obtain s where "frontmatter a ''description'' = Some (YStr s)" by blast
    then have "description_preview a = Inr (take 80 s)"
      by (simp add: description_preview_def)
    with Cons True show ?thesis
      by (cases "listing_loop agents") auto
  next
    case False
    then have "\<exists>e. description_preview a = Inl e"
      by (auto simp: description_preview_def split: option.splits yaml.splits)
    with False show ?thesis by auto
  qed
qed

lemma generateCommands_no_force_preserves:
  assumes "generateCommands E (generateCommand E) R N sc dryRun False st fs = (st', fs', r)"
    and "fs q = Some n"
  shows "fs' q = Some n"
proof (cases "\<exists>g s e. r = Inr (Generated g s e)")
  case False
  with assms(1) have "fs' = fs"
    by (auto simp: generateCommands_def split: if_splits prod.splits sum.splits)
  with assms(2) show ?thesis by simp
next
  case True
  then obtain g s e where r: "r = Inr (Generated g s e)" by blast
  with assms(1) obtain nameMap agents where
    "generate_loop (generateCommand E) nameMap sc False agents (fs, [], [], []) = (fs', g, s, e)"
    by (auto simp: generateCommands_def split: if_splits prod.splits sum.splits)
  from generate_loop_preserves [OF this assms(2)] show ?thesis .
qed

lemma generateCommands_Generated:
  assumes "discoverAgents E fs sc st = (st1, agents, lg)" and "valid_scope sc"
    and "getValidAgentsDirs E fs sc \<noteq> []" and "agents \<noteq> []"
    and "listing_loop agents = Inr previews" and "R agents = Inr nameMap"
    and "conflicts_loop N nameMap = Inr conflicts"
  shows "generateCommands E G R N sc False force st fs =
     (case generate_loop G nameMap sc force agents (fs, [], [], []) of
        (fs', generated, skipped, errors) \<Rightarrow> (st1, fs', Inr (Generated generated skipped errors)))"
  using assms by (simp add: generateCommands_def)

lemma generateCommands_listing_throws:
  assumes "discoverAgents E fs sc st = (st1, agents, lg)" and "valid_scope sc"
    and "getValidAgentsDirs E fs sc \<noteq> []" and "agents \<noteq> []"
    and "listing_loop agents = Inl error"
  shows "generateCommands E G R N sc dryRun force st fs = (st1, fs, Inl error)"
  using assms by (simp add: generateCommands_def)

text \<open>
  C6. With the generator of the spec and \<open>force\<close> off, generating a command whose
  destination exists writes nothing: the call returns the file system as it was and throws
  an error that the batch recognises as ``already exists''. The batch of
  \<^verbatim>\<open>generateCommands\<close> records such an agent under \<^verbatim>\<open>skipped\<close> and changes nothing else, where
  an agent whose destination is free in an existing commands directory has its file
  written and is recorded under \<^verbatim>\<open>generated\<close>. A run leaves every file that existed before it
  as it was. When the listing of the agents returns, that is when every description is a
  string, and the name functions return, the run processes every agent (each is counted
  under generated, skipped or errors, those with an existing destination under skipped)
  and its outcome is the summary, not a thrown error; when the listing throws, the run
  throws before any generation and has written nothing.
\<close>

theorem generateCommands_existing_without_force:
  assumes "generateCommands E (generateCommand E) R N sc dryRun False st fs = (st', fs', r)"
  shows "(\<forall>a ts fs0. existsSync fs0 (command_path E a ts) \<longrightarrow>
            generateCommand E a ts False fs0 =
              (fs0, Inl (Error ''Error'' (''Command file already exists: '' @ command_path E a ts))) \<and>
            already_exists_error
              (Error ''Error'' (''Command file already exists: '' @ command_path E a ts))) \<and>
         (\<forall>nameMap a fs0 g s e. existsSync fs0 (command_path E a (target_scope sc)) \<longrightarrow>
            generate_step (generateCommand E) nameMap sc False a (fs0, g, s, e) =
              (fs0, g, s @ [name_or_self nameMap (frontmatter a ''name'')], e)) \<and>
         (\<forall>nameMap a fs0 g s e.
            fs0 (command_path E a (target_scope sc)) = None \<and>
            fs0 (commandsDirFor E (target_scope sc)) = Some Dir \<longrightarrow>
            generate_step (generateCommand E) nameMap sc False a (fs0, g, s, e) =
              (fs0(command_path E a (target_scope sc) \<mapsto> File (render_command a)),
               g @ [generateCommandName (field_string a ''name'')], s, e)) \<and>
         (\<forall>nameMap k v. map_of nameMap k = Some v \<and> v \<noteq> [] \<longrightarrow> name_or_self nameMap k = v) \<and>
         (\<forall>nameMap k. map_of nameMap k = None \<or> map_of nameMap k = Some [] \<longrightarrow>
            name_or_self nameMap k = show_key k) \<and>
         (\<forall>q n. fs q = Some n \<longrightarrow> fs' q = Some n) \<and>
         (\<forall>st1 agents lg.
            discoverAgents E fs sc st = (st1, agents, lg) \<and> valid_scope sc \<and>
            getValidAgentsDirs E fs sc \<noteq> [] \<and> agents \<noteq> [] \<longrightarrow>
            (\<forall>previews nameMap conflicts.
               listing_loop agents = Inr previews \<and> R agents = Inr nameMap \<and>
               conflicts_loop N nameMap = Inr conflicts \<and> \<not> dryRun \<longrightarrow>
               (\<exists>generated skipped errors.
                  r = Inr (Generated generated skipped errors) \<and>
                  length generated + length skipped + length errors = length agents \<and>
                  (\<forall>a\<in>set agents. existsSync fs (command_path E a (target_scope sc)) \<longrightarrow>
                     name_or_self nameMap (frontmatter a ''name'') \<in> set skipped))) \<and>
            (\<forall>error. listing_loop agents = Inl error \<longrightarrow> r = Inl error \<and> fs' = fs) \<and>
            ((\<exists>previews. listing_loop agents = Inr previews) \<longleftrightarrow>
             (\<forall>a\<in>set agents. \<exists>s. frontmatter a ''description'' = Some (YStr s))))"
proof (intro conjI allI impI)
  fix a ts fs0
  assume "existsSync fs0 (command_path E a ts)"
  then show "generateCommand E a ts False fs0 =
      (fs0, Inl (Error ''Error'' (''Command file already exists: '' @ command_path E a ts)))"
    by (rule generateCommand_exists)
  show "already_exists_error (Error ''Error'' (''Command file already exists: '' @ command_path E a ts))"
    by (simp add: already_exists_message)
next
  fix nameMap a fs0 g s e
  assume "existsSync fs0 (command_path E a (target_scope sc))"
  then show "generate_step (generateCommand E) nameMap sc False a (fs0, g, s, e) =
      (fs0, g, s @ [name_or_self nameMap (frontmatter a ''name'')], e)"
    by (rule generate_step_skips)
next
  fix nameMap a fs0 g s e
  assume "fs0 (command_path E a (target_scope sc)) = None \<and>
      fs0 (commandsDirFor E (target_scope sc)) = Some Dir"
  then show "generate_step (generateCommand E) nameMap sc False a (fs0, g, s, e) =
      (fs0(command_path E a (target_scope sc) \<mapsto> File (render_command a)),
       g @ [generateCommandName (field_string a ''name'')], s, e)"
    by (simp add: generate_step_writes)
next
  fix nameMap :: name_map and k v
  assume "map_of nameMap k = Some v \<and> v \<noteq> []"
  then show "name_or_self nameMap k = v" by (simp add: name_or_self_def)
next
  fix nameMap :: name_map and k
  assume "map_of nameMap k = None \<or> map_of nameMap k = Some []"
  then show "name_or_self nameMap k = show_key k" by (auto simp: name_or_self_def)
next
  fix q n
  assume "fs q = Some n"
  with assms show "fs' q = Some n"
    by (rule generateCommands_no_force_preserves)
next
  fix st1 agents lg previews nameMap conflicts
  assume d: "discoverAgents E fs sc st = (st1, agents, lg) \<and> valid_scope sc \<and>
            getValidAgentsDirs E fs sc \<noteq> [] \<and> agents \<noteq> []"
    and h: "listing_loop agents = Inr previews \<and> R agents = Inr nameMap \<and>
            conflicts_loop N nameMap = Inr conflicts \<and> \<not> dryRun"
  obtain fs2 g s e where l:
    "generate_loop (generateCommand E) nameMap sc False agents (fs, [], [], []) = (fs2, g, s, e)"
    by (cases "generate_loop (generateCommand E) nameMap sc False agents (fs, [], [], [])") auto
  from d h have "generateCommands E (generateCommand E) R N sc False False st fs =
      (st1, fs2, Inr (Generated g s e))"
    using generateCommands_Generated
      [of E fs sc st st1 agents lg previews R nameMap N conflicts "generateCommand E" False] l
    by simp
  with assms h have r: "r = Inr (Generated g s e)" by simp
  have c: "length g + length s + length e = length agents"
    using generate_loop_count [OF l] by simp
  have k: "\<forall>a\<in>set agents. existsSync fs (command_path E a (target_scope sc)) \<longrightarrow>
        name_or_self nameMap (frontmatter a ''name'') \<in> set s"
    using generate_loop_skips [OF l] by blast
  from r c k show "\<exists>generated skipped errors.
      r = Inr (Generated generated skipped errors) \<and>
      length generated + length skipped + length errors = length agents \<and>
      (\<forall>a\<in>set agents. existsSync fs (command_path E a (target_scope sc)) \<longrightarrow>
         name_or_self nameMap (frontmatter a ''name'') \<in> set skipped)"
    by blast
next
  fix st1 agents lg error
  assume d: "discoverAgents E fs sc st = (st1, agents, lg) \<and> valid_scope sc \<and>
            getValidAgentsDirs E fs sc \<noteq> [] \<and> agents \<noteq> []"
    and h: "listing_loop agents = Inl error"
  from d h have "generateCommands E (generateCommand E) R N sc dryRun False st fs = (st1, fs, Inl error)"
    using generateCommands_listing_throws [of E fs sc st st1 agents lg error "generateCommand E" R N dryRun False]
    by simp
  with assms show "r = Inl error" and "fs' = fs" by simp_all
next
  fix st1 agents lg
  show "(\<exists>previews. listing_loop agents = Inr previews) \<longleftrightarrow>
        (\<forall>a\<in>set agents. \<exists>s. frontmatter a ''description'' = Some (YStr s))"
    by (rule listing_loop_strings)
qed

theorem generateCommands_existing_without_force_witness:
  "snd (snd (generateCommands ex_env (generateCommand ex_env) hyphen_resolver spec_namer ''project''
               False False Map.empty ex_fs_manual)) =
     Inr (Generated [''keep''] [''test-agent''] []) \<and>
   fst (snd (generateCommands ex_env (generateCommand ex_env) hyphen_resolver spec_namer ''project''
               False False Map.empty ex_fs_manual)) ''/p/.claude/commands/test-agent.md'' =
     Some (File ''hand written'') \<and>
   fst (snd (generateCommands ex_env (generateCommand ex_env) hyphen_resolver spec_namer ''project''
               False False Map.empty ex_fs_manual)) ''/p/.claude/commands/keep.md'' =
     Some (File (''---\<newline>description: k\<newline>---\<newline><!-- ccsa:generated -->\<newline>body d\<newline>Generated by cc-slash-agents\<newline>''))"
proof -
  let ?run = "generateCommands ex_env (generateCommand ex_env) hyphen_resolver spec_namer ''project''
               False False Map.empty ex_fs_manual"
  have r: "?run = (fst ?run, fst (snd ?run), snd (snd ?run))" by simp
  have f: "ex_fs_manual ''/p/.claude/commands/test-agent.md'' = Some (File ''hand written'')"
    by (simp add: ex_fs_manual_def)
  have o: "snd (snd ?run) = Inr (Generated [''keep''] [''test-agent''] [])"
    by code_simp
  have k: "fst (snd ?run) ''/p/.claude/commands/keep.md'' =
     Some (File (''---\<newline>description: k\<newline>---\<newline><!-- ccsa:generated -->\<newline>body d\<newline>Generated by cc-slash-agents\<newline>''))"
    by code_simp
  have "\<forall>q n. ex_fs_manual q = Some n \<longrightarrow> fst (snd ?run) q = Some n"
    by (rule generateCommands_existing_without_force [OF r,
          THEN conjunct2, THEN conjunct2, THEN conjunct2, THEN conjunct2, THEN conjunct2,
          THEN conjunct1])
  with f have "fst (snd ?run) ''/p/.claude/commands/test-agent.md'' = Some (File ''hand written'')"
    by blast
  with o k show ?thesis by (intro conjI)
qed

text \<open>
  An agent whose description is a list: the listing throws and the run ends with the
  \<^verbatim>\<open>TypeError\<close>, before any generation.
\<close>

lemma generateCommands_listing_aborts:
  "snd (snd (generateCommands ex_env (generateCommand ex_env) hyphen_resolver spec_namer ''project''
               False False Map.empty ex_fs_list)) =
     Inl (Error ''TypeError'' ''agent.frontmatter.description.substring is not a function'') \<and>
   map (fst (snd (generateCommands ex_env (generateCommand ex_env) hyphen_resolver spec_namer
                    ''project'' False False Map.empty ex_fs_list)))
     [''/p/.claude/commands/test-agent.md'', ''/p/.claude/commands/keep.md'',
      ''/p/.claude/commands/lister.md''] = [None, None, None]"
  by code_simp

section \<open>Properties of the batch loops\<close>

lemma agent_files_loop_append:
  "agent_files_loop E fs d sc (xs @ ys) s =
     agent_files_loop E fs d sc ys (agent_files_loop E fs d sc xs s)"
  by (induction xs arbitrary: s) simp_all

lemma agent_dirs_loop_append:
  "agent_dirs_loop E fs (xs @ ys) s = agent_dirs_loop E fs ys (agent_dirs_loop E fs xs s)"
  by (induction xs arbitrary: s) simp_all

lemma command_files_loop_append:
  "command_files_loop E fs d sc (xs @ ys) s =
     command_files_loop E fs d sc ys (command_files_loop E fs d sc xs s)"
  by (induction xs arbitrary: s) simp_all

lemma command_dirs_loop_append:
  "command_dirs_loop E fs (xs @ ys) s = command_dirs_loop E fs ys (command_dirs_loop E fs xs s)"
  by (induction xs arbitrary: s) simp_all

lemma generate_loop_append:
  "generate_loop G nameMap sc force (xs @ ys) s =
     generate_loop G nameMap sc force ys (generate_loop G nameMap sc force xs s)"
  by (induction xs arbitrary: s) simp_all

lemma create_loop_append:
  "create_loop G sc (xs @ ys) s = create_loop G sc ys (create_loop G sc xs s)"
  by (induction xs arbitrary: s) simp_all

lemma update_loop_append:
  "update_loop G sc (xs @ ys) s = update_loop G sc ys (update_loop G sc xs s)"
  by (induction xs arbitrary: s) simp_all

lemma delete_loop_append:
  "delete_loop (xs @ ys) s = delete_loop ys (delete_loop xs s)"
  by (induction xs arbitrary: s) simp_all

text \<open>What a loop has recorded stays recorded.\<close>

lemma generate_loop_grows:
  "\<exists>g' s' e'. snd (generate_loop G nameMap sc force agents (fs, g, s, e)) = (g @ g', s @ s', e @ e')"
proof (induction agents arbitrary: fs g s e)
  case Nil
  then show ?case by simp
next
  case (Cons a agents)
  obtain fs1 g1 s1 e1 where st: "generate_step G nameMap sc force a (fs, g, s, e) = (fs1, g1, s1, e1)"
    by (cases "generate_step G nameMap sc force a (fs, g, s, e)") auto
  then have "\<exists>g' s' e'. g1 = g @ g' \<and> s1 = s @ s' \<and> e1 = e @ e'"
    by (auto simp: generate_step_def Let_def split: prod.splits sum.splits if_splits)
  then obtain g' s' e' where x: "g1 = g @ g'" "s1 = s @ s'" "e1 = e @ e'" by blast
  from Cons [of fs1 g1 s1 e1] obtain g'' s'' e'' where
    "snd (generate_loop G nameMap sc force agents (fs1, g1, s1, e1)) = (g1 @ g'', s1 @ s'', e1 @ e'')"
    by blast
  with st x show ?case by simp
qed

lemma create_loop_grows: "\<exists>more. snd (snd (create_loop G sc agents (fs, n, e))) = e @ more"
proof (induction agents arbitrary: fs n e)
  case Nil
  then show ?case by simp
next
  case (Cons a agents)
  obtain fs1 n1 e1 where st: "create_step G sc a (fs, n, e) = (fs1, n1, e1)"
    by (cases "create_step G sc a (fs, n, e)") auto
  then have "\<exists>more. e1 = e @ more"
    by (auto simp: create_step_def split: prod.splits sum.splits)
  with Cons [of fs1 n1 e1] st show ?case by auto
qed

lemma update_loop_grows: "\<exists>more. snd (snd (update_loop G sc pairs (fs, n, e))) = e @ more"
proof (induction pairs arbitrary: fs n e)
  case Nil
  then show ?case by simp
next
  case (Cons a pairs)
  obtain fs1 n1 e1 where st: "update_step G sc a (fs, n, e) = (fs1, n1, e1)"
    by (cases "update_step G sc a (fs, n, e)") auto
  then have "\<exists>more. e1 = e @ more"
    by (auto simp: update_step_def split: prod.splits sum.splits)
  with Cons [of fs1 n1 e1] st show ?case by auto
qed

lemma delete_loop_grows: "\<exists>more. snd (snd (delete_loop ps (fs, n, e))) = e @ more"
proof (induction ps arbitrary: fs n e)
  case Nil
  then show ?case by simp
next
  case (Cons a ps)
  obtain fs1 n1 e1 where st: "delete_step a (fs, n, e) = (fs1, n1, e1)"
    by (cases "delete_step a (fs, n, e)") auto
  then have "\<exists>more. e1 = e @ more"
    by (auto simp: delete_step_def split: prod.splits sum.splits)
  with Cons [of fs1 n1 e1] st show ?case by auto
qed

lemma syncCommands_Synced:
  assumes "discoverAgents E fs sc st = (st1, agents, lg1)"
    and "discoverCommands E fs sc st1 = (st2, existingCommands, lg2)"
    and "valid_scope sc" and "agents \<noteq> []" and "R agents = Inr nameMap"
    and "pl = reconcile fs nameMap agents existingCommands clean"
    and "\<not> (toCreate pl = [] \<and> toUpdate pl = [] \<and> toDelete pl = [])"
  shows "syncCommands E G R sc clean st fs =
     (case create_loop G sc (toCreate pl) (fs, 0, []) of
        (fs1, created, errors1) \<Rightarrow>
          (case update_loop G sc (toUpdate pl) (fs1, 0, errors1) of
             (fs2, updated, errors2) \<Rightarrow>
               (case (if clean then delete_loop (toDelete pl) (fs2, 0, errors2)
                      else (fs2, 0, errors2)) of
                  (fs3, deleted, errors3) \<Rightarrow>
                    (st2, fs3, Inr (Synced pl created updated deleted errors3)))))"
  using assms by (cases clean) (simp_all add: syncCommands_def Let_def)

text \<open>
  C8, as amended. In every batch loop a failure on one item is caught, recorded, and the
  loop goes on with the items that follow. For each loop and each place of an item in
  its list: whatever happened to the items in front of it, the item is processed in the
  state they left, and the items behind it are processed in the state it leaves, which
  after a failure is the state before it with the failure recorded. The loops are the
  scan of the files of an agents root and of the agents roots, the same two for the
  commands, the generation loop, and the creation, update and deletion loops of sync.

  What the generation loop and the three loops of sync record goes to a list of messages
  that only grows and that the outcome of the run carries to the final summary. A file
  that fails to parse is recorded by a warning of the logger, and a root that cannot be
  scanned by a debug message; neither is in the final summary.
\<close>

theorem batch_loops_continue_past_failures:
  "agent_files_loop E fs d sc (xs @ f # ys) s =
     agent_files_loop E fs d sc ys
       (case agent_files_loop E fs d sc xs s of
          (st, agents, lg) \<Rightarrow>
            (case parseAgentFile E fs f d sc st of
               (st', l, Inr (Some agent)) \<Rightarrow>
                 (st', agents @ [agent],
                  lg @ l @ [(Debug, ''Found agent: '' @ field_string agent ''name'' @
                                      '' ('' @ sc @ '')'')])
             | (st', l, Inr None) \<Rightarrow> (st', agents, lg @ l)
             | (st', l, Inl error) \<Rightarrow>
                 (st', agents,
                  lg @ l @ [(Warning, ''Failed to parse agent file '' @ f @ '': '' @
                                        error_str error)]))) \<and>
   agent_dirs_loop E fs (ds @ (d, sc) # es) s =
     agent_dirs_loop E fs es
       (case agent_dirs_loop E fs ds s of
          (st, agents, lg) \<Rightarrow>
            (case glob E fs (md_pattern E d) of
               Inl error \<Rightarrow>
                 (st, agents,
                  lg @ [(Debug, ''Scanning agents directory: '' @ d),
                        (Debug, ''Error scanning '' @ d @ '': '' @ error_str error)])
             | Inr files \<Rightarrow>
                 agent_files_loop E fs d sc files
                   (st, agents, lg @ [(Debug, ''Scanning agents directory: '' @ d)]))) \<and>
   command_files_loop E fs d sc (xs @ f # ys) s =
     command_files_loop E fs d sc ys
       (case command_files_loop E fs d sc xs s of
          (st, commands, lg) \<Rightarrow>
            (case parseCommandFile E fs f d sc st of
               (st', Inr (Some command)) \<Rightarrow>
                 (st', commands @ [command],
                  lg @ [(Debug, ''Found command: '' @ relative E d f @ '' ('' @ sc @ '')'')])
             | (st', Inr None) \<Rightarrow> (st', commands, lg)
             | (st', Inl error) \<Rightarrow>
                 (st', commands,
                  lg @ [(Warning, ''Failed to parse command file '' @ f @ '': '' @
                                    error_str error)]))) \<and>
   command_dirs_loop E fs (ds @ (d, sc) # es) s =
     command_dirs_loop E fs es
       (case command_dirs_loop E fs ds s of
          (st, commands, lg) \<Rightarrow>
            (case glob E fs (md_pattern E d) of
               Inl error \<Rightarrow>
                 (st, commands,
                  lg @ [(Debug, ''Scanning commands directory: '' @ d),
                        (Debug, ''Error scanning '' @ d @ '': '' @ error_str error)])
             | Inr files \<Rightarrow>
                 command_files_loop E fs d sc files
                   (st, commands, lg @ [(Debug, ''Scanning commands directory: '' @ d)]))) \<and>
   generate_loop G nameMap sc force (as @ a # bs) t =
     generate_loop G nameMap sc force bs
       (case generate_loop G nameMap sc force as t of
          (fs1, generated, skipped, errors) \<Rightarrow>
            (case G a (target_scope sc) force fs1 of
               (fs2, Inr (commandName, commandPath)) \<Rightarrow>
                 (fs2, generated @ [commandName], skipped, errors)
             | (fs2, Inl error) \<Rightarrow>
                 (if already_exists_error error
                  then (fs2, generated,
                        skipped @ [name_or_self nameMap (frontmatter a ''name'')], errors)
                  else (fs2, generated, skipped,
                        errors @ [name_or_self nameMap (frontmatter a ''name'') @ '': '' @
                                  error_str error])))) \<and>
   create_loop G sc (as @ a # bs) u =
     create_loop G sc bs
       (case create_loop G sc as u of
          (fs1, created, errors) \<Rightarrow>
            (case G a (target_scope sc) True fs1 of
               (fs2, Inr r) \<Rightarrow> (fs2, Suc created, errors)
             | (fs2, Inl error) \<Rightarrow>
                 (fs2, created,
                  errors @ [''Failed to create command for '' @ field_string a ''name'' @ '': '' @
                            error_str error]))) \<and>
   update_loop G sc (ps @ (a, c) # qs) u =
     update_loop G sc qs
       (case update_loop G sc ps u of
          (fs1, updated, errors) \<Rightarrow>
            (case G a (target_scope sc) True fs1 of
               (fs2, Inr r) \<Rightarrow> (fs2, Suc updated, errors)
             | (fs2, Inl error) \<Rightarrow>
                 (fs2, updated,
                  errors @ [''Failed to update command for '' @ field_string a ''name'' @ '': '' @
                            error_str error]))) \<and>
   delete_loop (ws @ p # zs) u =
     delete_loop zs
       (case delete_loop ws u of
          (fs1, deleted, errors) \<Rightarrow>
            (case unlinkSync fs1 p of
               Inr fs2 \<Rightarrow> (fs2, Suc deleted, errors)
             | Inl error \<Rightarrow>
                 (fs1, deleted, errors @ [''Failed to delete '' @ p @ '': '' @ error_str error]))) \<and>
   (\<forall>error. already_exists_error error \<longleftrightarrow>
              (\<exists>name pre post. error = Error name (pre @ ''already exists'' @ post))) \<and>
   (\<exists>g' s' e'. snd (generate_loop G nameMap sc force as (fs0, g0, s0, e0)) =
                 (g0 @ g', s0 @ s', e0 @ e')) \<and>
   (\<exists>more. snd (snd (create_loop G sc as (fs0, n0, e0))) = e0 @ more) \<and>
   (\<exists>more. snd (snd (update_loop G sc ps (fs0, n0, e0))) = e0 @ more) \<and>
   (\<exists>more. snd (snd (delete_loop ws (fs0, n0, e0))) = e0 @ more) \<and>
   (\<forall>st0 st1 agents lg previews nameMap' conflicts.
      discoverAgents E fs sc' st0 = (st1, agents, lg) \<and> valid_scope sc' \<and>
      getValidAgentsDirs E fs sc' \<noteq> [] \<and> agents \<noteq> [] \<and>
      listing_loop agents = Inr previews \<and> R agents = Inr nameMap' \<and>
      conflicts_loop N nameMap' = Inr conflicts \<longrightarrow>
      generateCommands E G R N sc' False force st0 fs =
        (case generate_loop G nameMap' sc' force agents (fs, [], [], []) of
           (fs', generated, skipped, errors) \<Rightarrow>
             (st1, fs', Inr (Generated generated skipped errors)))) \<and>
   (\<forall>st0 st1 st2 agents lg1 existingCommands lg2 nameMap' pl clean.
      discoverAgents E fs sc' st0 = (st1, agents, lg1) \<and>
      discoverCommands E fs sc' st1 = (st2, existingCommands, lg2) \<and>
      valid_scope sc' \<and> agents \<noteq> [] \<and> R agents = Inr nameMap' \<and>
      pl = reconcile fs nameMap' agents existingCommands clean \<and>
      \<not> (toCreate pl = [] \<and> toUpdate pl = [] \<and> toDelete pl = []) \<longrightarrow>
      syncCommands E G R sc' clean st0 fs =
        (case create_loop G sc' (toCreate pl) (fs, 0, []) of
           (fs1, created, errors1) \<Rightarrow>
             (case update_loop G sc' (toUpdate pl) (fs1, 0, errors1) of
                (fs2, updated, errors2) \<Rightarrow>
                  (case (if clean then delete_loop (toDelete pl) (fs2, 0, errors2)
                         else (fs2, 0, errors2)) of
                     (fs3, deleted, errors3) \<Rightarrow>
                       (st2, fs3, Inr (Synced pl created updated deleted errors3))))))"
proof -
  have c1: "agent_files_loop E fs d sc (xs @ f # ys) s =
     agent_files_loop E fs d sc ys
       (case agent_files_loop E fs d sc xs s of
          (st, agents, lg) \<Rightarrow>
            (case parseAgentFile E fs f d sc st of
               (st', l, Inr (Some agent)) \<Rightarrow>
                 (st', agents @ [agent],
                  lg @ l @ [(Debug, ''Found agent: '' @ field_string agent ''name'' @
                                      '' ('' @ sc @ '')'')])
             | (st', l, Inr None) \<Rightarrow> (st', agents, lg @ l)
             | (st', l, Inl error) \<Rightarrow>
                 (st', agents,
                  lg @ l @ [(Warning, ''Failed to parse agent file '' @ f @ '': '' @
                                        error_str error)])))"
    by (simp add: agent_files_loop_append agent_file_step_def split: prod.splits)
  have c2: "agent_dirs_loop E fs (ds @ (d, sc) # es) s =
     agent_dirs_loop E fs es
       (case agent_dirs_loop E fs ds s of
          (st, agents, lg) \<Rightarrow>
            (case glob E fs (md_pattern E d) of
               Inl error \<Rightarrow>
                 (st, agents,
                  lg @ [(Debug, ''Scanning agents directory: '' @ d),
                        (Debug, ''Error scanning '' @ d @ '': '' @ error_str error)])
             | Inr files \<Rightarrow>
                 agent_files_loop E fs d sc files
                   (st, agents, lg @ [(Debug, ''Scanning agents directory: '' @ d)])))"
    by (simp add: agent_dirs_loop_append agent_dir_step_def split: prod.splits)
  have c3: "command_files_loop E fs d sc (xs @ f # ys) s =
     command_files_loop E fs d sc ys
       (case command_files_loop E fs d sc xs s of
          (st, commands, lg) \<Rightarrow>
            (case parseCommandFile E fs f d sc st of
               (st', Inr (Some command)) \<Rightarrow>
                 (st', commands @ [command],
                  lg @ [(Debug, ''Found command: '' @ relative E d f @ '' ('' @ sc @ '')'')])
             | (st', Inr None) \<Rightarrow> (st', commands, lg)
             | (st', Inl error) \<Rightarrow>
                 (st', commands,
                  lg @ [(Warning, ''Failed to parse command file '' @ f @ '': '' @
                                    error_str error)])))"
    by (simp add: command_files_loop_append command_file_step_def split: prod.splits)
  have c4: "command_dirs_loop E fs (ds @ (d, sc) # es) s =
     command_dirs_loop E fs es
       (case command_dirs_loop E fs ds s of
          (st, commands, lg) \<Rightarrow>
            (case glob E fs (md_pattern E d) of
               Inl error \<Rightarrow>
                 (st, commands,
                  lg @ [(Debug, ''Scanning commands directory: '' @ d),
                        (Debug, ''Error scanning '' @ d @ '': '' @ error_str error)])
             | Inr files \<Rightarrow>
                 command_files_loop E fs d sc files
                   (st, commands, lg @ [(Debug, ''Scanning commands directory: '' @ d)])))"
    by (simp add: command_dirs_loop_append command_dir_step_def split: prod.splits)
  have c5: "generate_loop G nameMap sc force (as @ a # bs) t =
     generate_loop G nameMap sc force bs
       (case generate_loop G nameMap sc force as t of
          (fs1, generated, skipped, errors) \<Rightarrow>
            (case G a (target_scope sc) force fs1 of
               (fs2, Inr (commandName, commandPath)) \<Rightarrow>
                 (fs2, generated @ [commandName], skipped, errors)
             | (fs2, Inl error) \<Rightarrow>
                 (if already_exists_error error
                  then (fs2, generated,
                        skipped @ [name_or_self nameMap (frontmatter a ''name'')], errors)
                  else (fs2, generated, skipped,
                        errors @ [name_or_self nameMap (frontmatter a ''name'') @ '': '' @
                                  error_str error]))))"
    by (simp add: generate_loop_append generate_step_def Let_def split: prod.splits sum.splits)
  have c6: "create_loop G sc (as @ a # bs) u =
     create_loop G sc bs
       (case create_loop G sc as u of
          (fs1, created, errors) \<Rightarrow>
            (case G a (target_scope sc) True fs1 of
               (fs2, Inr r) \<Rightarrow> (fs2, Suc created, errors)
             | (fs2, Inl error) \<Rightarrow>
                 (fs2, created,
                  errors @ [''Failed to create command for '' @ field_string a ''name'' @ '': '' @
                            error_str error])))"
    by (simp add: create_loop_append create_step_def split: prod.splits)
  have c7: "update_loop G sc (ps @ (a, c) # qs) u =
     update_loop G sc qs
       (case update_loop G sc ps u of
          (fs1, updated, errors) \<Rightarrow>
            (case G a (target_scope sc) True fs1 of
               (fs2, Inr r) \<Rightarrow> (fs2, Suc updated, errors)
             | (fs2, Inl error) \<Rightarrow>
                 (fs2, updated,
                  errors @ [''Failed to update command for '' @ field_string a ''name'' @ '': '' @
                            error_str error])))"
    by (simp add: update_loop_append update_step_def split: prod.splits)
  have c8: "delete_loop (ws @ p # zs) u =
     delete_loop zs
       (case delete_loop ws u of
          (fs1, deleted, errors) \<Rightarrow>
            (case unlinkSync fs1 p of
               Inr fs2 \<Rightarrow> (fs2, Suc deleted, errors)
             | Inl error \<Rightarrow>
                 (fs1, deleted, errors @ [''Failed to delete '' @ p @ '': '' @ error_str error])))"
    by (simp add: delete_loop_append delete_step_def split: prod.splits)
  have c8a: "\<forall>error. already_exists_error error \<longleftrightarrow>
              (\<exists>name pre post. error = Error name (pre @ ''already exists'' @ post))"
  proof
    fix error
    show "already_exists_error error \<longleftrightarrow>
              (\<exists>name pre post. error = Error name (pre @ ''already exists'' @ post))"
      by (cases error) (auto simp: str_includes_iff)
  qed
  have c9: "\<exists>g' s' e'. snd (generate_loop G nameMap sc force as (fs0, g0, s0, e0)) =
                 (g0 @ g', s0 @ s', e0 @ e')"
    by (rule generate_loop_grows)
  have c10: "\<exists>more. snd (snd (create_loop G sc as (fs0, n0, e0))) = e0 @ more"
    by (rule create_loop_grows)
  have c11: "\<exists>more. snd (snd (update_loop G sc ps (fs0, n0, e0))) = e0 @ more"
    by (rule update_loop_grows)
  have c12: "\<exists>more. snd (snd (delete_loop ws (fs0, n0, e0))) = e0 @ more"
    by (rule delete_loop_grows)
  have c13: "\<forall>st0 st1 agents lg previews nameMap' conflicts.
      discoverAgents E fs sc' st0 = (st1, agents, lg) \<and> valid_scope sc' \<and>
      getValidAgentsDirs E fs sc' \<noteq> [] \<and> agents \<noteq> [] \<and>
      listing_loop agents = Inr previews \<and> R agents = Inr nameMap' \<and>
      conflicts_loop N nameMap' = Inr conflicts \<longrightarrow>
      generateCommands E G R N sc' False force st0 fs =
        (case generate_loop G nameMap' sc' force agents (fs, [], [], []) of
           (fs', generated, skipped, errors) \<Rightarrow>
             (st1, fs', Inr (Generated generated skipped errors)))"
    using generateCommands_Generated [of E fs sc' _ _ _ _ _ R _ N _ G force] by blast
  have c14: "\<forall>st0 st1 st2 agents lg1 existingCommands lg2 nameMap' pl clean.
      discoverAgents E fs sc' st0 = (st1, agents, lg1) \<and>
      discoverCommands E fs sc' st1 = (st2, existingCommands, lg2) \<and>
      valid_scope sc' \<and> agents \<noteq> [] \<and> R agents = Inr nameMap' \<and>
      pl = reconcile fs nameMap' agents existingCommands clean \<and>
      \<not> (toCreate pl = [] \<and> toUpdate pl = [] \<and> toDelete pl = []) \<longrightarrow>
      syncCommands E G R sc' clean st0 fs =
        (case create_loop G sc' (toCreate pl) (fs, 0, []) of
           (fs1, created, errors1) \<Rightarrow>
             (case update_loop G sc' (toUpdate pl) (fs1, 0, errors1) of
                (fs2, updated, errors2) \<Rightarrow>
                  (case (if clean then delete_loop (toDelete pl) (fs2, 0, errors2)
                         else (fs2, 0, errors2)) of
                     (fs3, deleted, errors3) \<Rightarrow>
                       (st2, fs3, Inr (Synced pl created updated deleted errors3)))))"
  proof (intro allI impI)
    fix st0 st1 st2 agents lg1 existingCommands lg2 nameMap' pl clean
    assume h: "discoverAgents E fs sc' st0 = (st1, agents, lg1) \<and>
      discoverCommands E fs sc' st1 = (st2, existingCommands, lg2) \<and>
      valid_scope sc' \<and> agents \<noteq> [] \<and> R agents = Inr nameMap' \<and>
      pl = reconcile fs nameMap' agents existingCommands clean \<and>
      \<not> (toCreate pl = [] \<and> toUpdate pl = [] \<and> toDelete pl = [])"
    then show "syncCommands E G R sc' clean st0 fs =
        (case create_loop G sc' (toCreate pl) (fs, 0, []) of
           (fs1, created, errors1) \<Rightarrow>
             (case update_loop G sc' (toUpdate pl) (fs1, 0, errors1) of
                (fs2, updated, errors2) \<Rightarrow>
                  (case (if clean then delete_loop (toDelete pl) (fs2, 0, errors2)
                         else (fs2, 0, errors2)) of
                     (fs3, deleted, errors3) \<Rightarrow>
                       (st2, fs3, Inr (Synced pl created updated deleted errors3)))))"
      using syncCommands_Synced [of E fs sc' st0 st1 agents lg1 st2 existingCommands lg2 R nameMap'
          pl clean G]
      by (elim conjE) simp
  qed
  from c1 c2 c3 c4 c5 c6 c7 c8 c8a c9 c10 c11 c12 c13 c14 show ?thesis
    by (intro conjI)
qed

theorem batch_loops_continue_past_failures_witness:
  "(case snd (snd (syncCommands ex_env ex_failing_generator hyphen_resolver ''project'' True
                     Map.empty ex_fs_keep)) of
      Inr (Synced pl created updated deleted errors) \<Rightarrow>
        created = 0 \<and> updated = 0 \<and> deleted = 2 \<and>
        errors = [''Failed to create command for Test Agent: Error: EIO: i/o error, write'',
                  ''Failed to update command for keep: Error: EIO: i/o error, write'']
    | _ \<Rightarrow> False) \<and>
   snd (syncCommands ex_env ex_failing_generator hyphen_resolver ''project'' True Map.empty ex_fs_keep) =
     (let agents = fst (snd (discoverAgents ex_env ex_fs_keep ''project'' Map.empty));
          commands = fst (snd (discoverCommands ex_env ex_fs_keep ''project''
                                 (fst (discoverAgents ex_env ex_fs_keep ''project'' Map.empty))));
          pl = reconcile ex_fs_keep
                 [(Some (YStr ''Test Agent''), ''test-agent''), (Some (YStr ''keep''), ''keep'')]
                 agents commands True
      in (case create_loop ex_failing_generator ''project'' (toCreate pl) (ex_fs_keep, 0, []) of
            (fs1, created, errors1) \<Rightarrow>
              (case update_loop ex_failing_generator ''project'' (toUpdate pl) (fs1, 0, errors1) of
                 (fs2, updated, errors2) \<Rightarrow>
                   (case delete_loop (toDelete pl) (fs2, 0, errors2) of
                      (fs3, deleted, errors3) \<Rightarrow>
                        (fs3, Inr (Synced pl created updated deleted errors3))))))"
proof -
  let ?da = "discoverAgents ex_env ex_fs_keep ''project'' Map.empty"
  let ?dc = "discoverCommands ex_env ex_fs_keep ''project'' (fst ?da)"
  let ?nm = "[(Some (YStr ''Test Agent''), ''test-agent''), (Some (YStr ''keep''), ''keep'')]"
  let ?pl = "reconcile ex_fs_keep ?nm (fst (snd ?da)) (fst (snd ?dc)) True"
  have o: "(case snd (snd (syncCommands ex_env ex_failing_generator hyphen_resolver ''project'' True
                     Map.empty ex_fs_keep)) of
      Inr (Synced pl created updated deleted errors) \<Rightarrow>
        created = 0 \<and> updated = 0 \<and> deleted = 2 \<and>
        errors = [''Failed to create command for Test Agent: Error: EIO: i/o error, write'',
                  ''Failed to update command for keep: Error: EIO: i/o error, write'']
    | _ \<Rightarrow> False)"
    by code_simp
  have a: "map path (fst (snd ?da)) = [''/p/.claude/agents/a.md'', ''/p/.claude/agents/d.md'']"
    by code_simp
  then have ne: "fst (snd ?da) \<noteq> []" by auto
  have r: "hyphen_resolver (fst (snd ?da)) = Inr ?nm"
    by code_simp
  have d: "toDelete ?pl = [''/p/.claude/commands/old-agent.md'', ''/p/.claude/commands/sub/test-agent.md'']"
    by code_simp
  then have np: "\<not> (toCreate ?pl = [] \<and> toUpdate ?pl = [] \<and> toDelete ?pl = [])"
    by simp
  have h: "?da = (fst ?da, fst (snd ?da), snd (snd ?da)) \<and>
      ?dc = (fst ?dc, fst (snd ?dc), snd (snd ?dc)) \<and>
      valid_scope ''project'' \<and> fst (snd ?da) \<noteq> [] \<and> hyphen_resolver (fst (snd ?da)) = Inr ?nm \<and>
      ?pl = reconcile ex_fs_keep ?nm (fst (snd ?da)) (fst (snd ?dc)) True \<and>
      \<not> (toCreate ?pl = [] \<and> toUpdate ?pl = [] \<and> toDelete ?pl = [])"
    using ne r np by (simp add: valid_scope_def)
  have "\<forall>st0 st1 st2 agents lg1 existingCommands lg2 nameMap' pl clean.
      discoverAgents ex_env ex_fs_keep ''project'' st0 = (st1, agents, lg1) \<and>
      discoverCommands ex_env ex_fs_keep ''project'' st1 = (st2, existingCommands, lg2) \<and>
      valid_scope ''project'' \<and> agents \<noteq> [] \<and> hyphen_resolver agents = Inr nameMap' \<and>
      pl = reconcile ex_fs_keep nameMap' agents existingCommands clean \<and>
      \<not> (toCreate pl = [] \<and> toUpdate pl = [] \<and> toDelete pl = []) \<longrightarrow>
      syncCommands ex_env ex_failing_generator hyphen_resolver ''project'' clean st0 ex_fs_keep =
        (case create_loop ex_failing_generator ''project'' (toCreate pl) (ex_fs_keep, 0, []) of
           (fs1, created, errors1) \<Rightarrow>
             (case update_loop ex_failing_generator ''project'' (toUpdate pl) (fs1, 0, errors1) of
                (fs2, updated, errors2) \<Rightarrow>
                  (case (if clean then delete_loop (toDelete pl) (fs2, 0, errors2)
                         else (fs2, 0, errors2)) of
                     (fs3, deleted, errors3) \<Rightarrow>
                       (st2, fs3, Inr (Synced pl created updated deleted errors3)))))"
    by (rule batch_loops_continue_past_failures
      [where E = ex_env and fs = ex_fs_keep and G = ex_failing_generator and R = hyphen_resolver
         and sc' = "''project''",
       THEN conjunct2, THEN conjunct2, THEN conjunct2, THEN conjunct2, THEN conjunct2,
       THEN conjunct2, THEN conjunct2, THEN conjunct2, THEN conjunct2, THEN conjunct2,
       THEN conjunct2, THEN conjunct2, THEN conjunct2, THEN conjunct2])
  from this [rule_format, OF h]
  have "snd (syncCommands ex_env ex_failing_generator hyphen_resolver ''project'' True Map.empty
              ex_fs_keep) =
     (case create_loop ex_failing_generator ''project'' (toCreate ?pl) (ex_fs_keep, 0, []) of
            (fs1, created, errors1) \<Rightarrow>
              (case update_loop ex_failing_generator ''project'' (toUpdate ?pl) (fs1, 0, errors1) of
                 (fs2, updated, errors2) \<Rightarrow>
                   (case delete_loop (toDelete ?pl) (fs2, 0, errors2) of
                      (fs3, deleted, errors3) \<Rightarrow>
                        (fs3, Inr (Synced ?pl created updated deleted errors3)))))"
    by (simp split: prod.splits)
  with o show ?thesis
    by (simp only: Let_def)
qed

text \<open>
  The claim as stated fails: the agent file \<^verbatim>\<open>c.md\<close> fails to parse during the discovery of a
  generate run; the failure is reported by a warning of the logger at that moment, and the
  final summary of the run has no error.
\<close>

theorem discovery_failure_not_in_summary:
  "snd (snd (discoverAgents ex_env ex_fs ''project'' Map.empty)) =
     [(Debug, ''Scanning agents directory: /p/.claude/agents''),
      (Debug, ''Found agent: Test Agent (project)''),
      (Debug, ''Skipping /p/.claude/agents/sub/b.md: missing required frontmatter (name, description)''),
      (Warning, ''Failed to parse agent file /p/.claude/agents/c.md: YAMLException: bad indentation of a mapping entry''),
      (Debug, ''Found agent: keep (project)'')] \<and>
   snd (snd (generateCommands ex_env (generateCommand ex_env) hyphen_resolver spec_namer ''project''
               False False Map.empty ex_fs)) =
     Inr (Generated [''test-agent'', ''keep''] [] [])"
  by code_simp

section \<open>Properties of the reconciler\<close>


lemma find_sub_None: "find_sub pat s = None \<Longrightarrow> \<not> str_includes s pat"
  by (induction s) (auto split: if_splits)






lemma classify_loop_eq:
  "classify_loop nameMap generated agents s =
     (fst s @ concat (map (\<lambda>a. case find (matches nameMap a) generated of
                                  Some c \<Rightarrow> [(a, c)] | None \<Rightarrow> []) agents),
      snd s @ filter (\<lambda>a. find (matches nameMap a) generated = None) agents)"
proof (induction agents arbitrary: s)
  case Nil
  then show ?case by simp
next
  case (Cons a agents)
  show ?case
    by (cases "find (matches nameMap a) generated") (simp_all add: Cons)
qed

lemma reconcile_eq:
  "toUpdate (reconcile fs nameMap agents existingCommands clean) =
     concat (map (\<lambda>a. case find (matches nameMap a)
                             (filter (\<lambda>c. isGeneratedFile fs (path c) = Inr True) existingCommands) of
                         Some c \<Rightarrow> [(a, c)] | None \<Rightarrow> []) agents)"
  "toCreate (reconcile fs nameMap agents existingCommands clean) =
     filter (\<lambda>a. find (matches nameMap a)
                    (filter (\<lambda>c. isGeneratedFile fs (path c) = Inr True) existingCommands) = None) agents"
  "toDelete (reconcile fs nameMap agents existingCommands clean) =
     (if clean
      then map path (filter (\<lambda>c. command_name c \<notin> snd ` set nameMap)
                       (filter (\<lambda>c. isGeneratedFile fs (path c) = Inr True) existingCommands))
      else [])"
  by (simp_all add: reconcile_def Let_def classify_loop_eq)




section \<open>Properties of a sync run\<close>

text \<open>
  What the analysis classifies and what the deletion loop removes: every command paired
  for an update and every path to delete is an existing file that carries the signature,
  and the deletion loop changes no other path.
\<close>

lemma reconcile_generated_only:
  assumes "pl = reconcile fs nameMap agents existingCommands clean"
  shows "(\<forall>a c. (a, c) \<in> set (toUpdate pl) \<longrightarrow>
            c \<in> set existingCommands \<and> isGeneratedFile fs (path c) = Inr True) \<and>
         (\<forall>p\<in>set (toDelete pl).
            \<exists>c\<in>set existingCommands. path c = p \<and> isGeneratedFile fs (path c) = Inr True) \<and>
         set (toCreate pl) \<subseteq> set agents"
proof (intro conjI allI impI ballI)
  fix a c
  assume "(a, c) \<in> set (toUpdate pl)"
  then have "find (matches nameMap a)
      (filter (\<lambda>c. isGeneratedFile fs (path c) = Inr True) existingCommands) = Some c"
    unfolding assms reconcile_eq by (auto split: option.splits)
  moreover have "find P' xs = Some c \<Longrightarrow> c \<in> set xs" for P' and xs :: "md_file list"
    by (auto simp: find_Some_iff)
  ultimately have "c \<in> set (filter (\<lambda>c. isGeneratedFile fs (path c) = Inr True) existingCommands)"
    by blast
  then show "c \<in> set existingCommands" and "isGeneratedFile fs (path c) = Inr True"
    by simp_all
next
  fix p
  assume "p \<in> set (toDelete pl)"
  then show "\<exists>c\<in>set existingCommands. path c = p \<and> isGeneratedFile fs (path c) = Inr True"
    unfolding assms reconcile_eq by (auto split: if_splits)
next
  show "set (toCreate pl) \<subseteq> set agents"
    unfolding assms reconcile_eq by auto
qed

lemma delete_loop_outside:
  "q \<notin> set ps \<Longrightarrow> fst (delete_loop ps (fs, n, e)) q = fs q"
proof (induction ps arbitrary: fs n e)
  case Nil
  then show ?case by simp
next
  case (Cons p ps)
  obtain fs1 n1 e1 where st: "delete_step p (fs, n, e) = (fs1, n1, e1)"
    by (cases "delete_step p (fs, n, e)") auto
  with Cons.prems have "fs1 q = fs q"
    by (auto simp: delete_step_def unlinkSync_def split: option.splits node.splits)
  with Cons.IH [of fs1 n1 e1] Cons.prems st show ?case by simp
qed

lemma ex_parse_a:
  "ex_parse ex_text_a =
     Inr ([''name'' \<mapsto> YStr ''Test Agent'', ''description'' \<mapsto> YStr ''d''], ''body a'')"
  by (simp add: ex_parse_def) (simp add: ex_text_a_def)

lemma ex_parse_hand: "ex_parse ''hand written'' = Inr (Map.empty, ''hand written'')"
  by (simp add: ex_parse_def)

lemma discoverAgents_hand:
  "discoverAgents ex_env ex_fs_hand ''project'' Map.empty =
     ([ex_text_a \<mapsto> ([''name'' \<mapsto> YStr ''Test Agent'', ''description'' \<mapsto> YStr ''d''], ''body a'')],
      [ex_agent_a],
      [(Debug, ''Scanning agents directory: /p/.claude/agents''),
       (Debug, ''Found agent: Test Agent (project)'')])"
proof -
  have n: "ex_text_a \<noteq> []" by (simp add: ex_text_a_def)
  show ?thesis
    using n
    by (simp add: discoverAgents_def getValidAgentsDirs_def getProjectAgentsDir_def
        getProjectClaudeDir_def getUserAgentsDir_def getUserClaudeDir_def ex_env_def
        existsSync_def ex_fs_hand_def agent_dir_step_def md_pattern_def ex_glob_def
        agent_file_step_def parseAgentFile_def readFileSync_def decode_or_repair_def
        cached_matter_def ex_parse_a ex_agent_a_def field_string_def show_key_def)
qed

lemma discoverCommands_hand:
  "discoverCommands ex_env ex_fs_hand ''project''
     [ex_text_a \<mapsto> ([''name'' \<mapsto> YStr ''Test Agent'', ''description'' \<mapsto> YStr ''d''], ''body a'')] =
     ([ex_text_a \<mapsto> ([''name'' \<mapsto> YStr ''Test Agent'', ''description'' \<mapsto> YStr ''d''], ''body a''),
       ''hand written'' \<mapsto> (Map.empty, ''hand written'')],
      [\<lparr>path = ''/p/.claude/commands/test-agent.md'', relativePath = ''test-agent.md'',
         frontmatter = Map.empty, content = ''hand written'', scope = ''project''\<rparr>],
      [(Debug, ''Scanning commands directory: /p/.claude/commands''),
       (Debug, ''Found command: test-agent.md (project)'')])"
proof -
  have n: "ex_text_a \<noteq> ''hand written''" by (simp add: ex_text_a_def)
  show ?thesis
    using n
    by (simp add: discoverCommands_def validCommandsDirs_def getProjectCommandsDir_def
        getProjectClaudeDir_def getUserCommandsDir_def getUserClaudeDir_def ex_env_def
        existsSync_def ex_fs_hand_def command_dir_step_def md_pattern_def ex_glob_def
        command_file_step_def parseCommandFile_def readFileSync_def
        cached_matter_def ex_parse_hand)
qed

text \<open>
  C1. A project has the agent \<^verbatim>\<open>Test Agent\<close> and, at \<^verbatim>\<open>.claude/commands/test-agent.md\<close>, a
  command that its user wrote by hand: the file does not carry the signature. A sync run
  does not take the file for a generated one, so it finds no command for the agent and
  puts the agent into \<^verbatim>\<open>toCreate\<close>; the creation loop then calls the generator for the agent
  with \<^verbatim>\<open>force\<close> set. Whatever the generator and the name map are, the run is that one
  forced call; the hand-written file is protected by nothing.
\<close>

theorem sync_forces_write_over_hand_written:
  "ex_fs_hand ''/p/.claude/commands/test-agent.md'' = Some (File ''hand written'') \<and>
   isGeneratedFile ex_fs_hand ''/p/.claude/commands/test-agent.md'' = Inr False \<and>
   (\<forall>G nameMap clean.
      snd (syncCommands ex_env G (\<lambda>agents. Inr nameMap) ''project'' clean Map.empty ex_fs_hand) =
        (case G ex_agent_a ''project'' True ex_fs_hand of
           (fs', Inr r) \<Rightarrow> (fs', Inr (Synced ex_plan_a 1 0 0 []))
         | (fs', Inl error) \<Rightarrow>
             (fs', Inr (Synced ex_plan_a 0 0 0
                          [''Failed to create command for Test Agent: '' @ error_str error]))))"
proof (intro conjI allI)
  show "ex_fs_hand ''/p/.claude/commands/test-agent.md'' = Some (File ''hand written'')"
    by (simp add: ex_fs_hand_def)
  show g: "isGeneratedFile ex_fs_hand ''/p/.claude/commands/test-agent.md'' = Inr False"
    by code_simp
  fix G :: generator and nameMap :: name_map and clean :: bool
  have f: "field_string ex_agent_a ''name'' = ''Test Agent''"
    by (simp add: field_string_def show_key_def ex_agent_a_def)
  show "snd (syncCommands ex_env G (\<lambda>agents. Inr nameMap) ''project'' clean Map.empty ex_fs_hand) =
        (case G ex_agent_a ''project'' True ex_fs_hand of
           (fs', Inr r) \<Rightarrow> (fs', Inr (Synced ex_plan_a 1 0 0 []))
         | (fs', Inl error) \<Rightarrow>
             (fs', Inr (Synced ex_plan_a 0 0 0
                          [''Failed to create command for Test Agent: '' @ error_str error])))"
    by (cases clean)
       (simp_all add: syncCommands_def valid_scope_def discoverAgents_hand discoverCommands_hand
          reconcile_def g Let_def ex_plan_a_def create_step_def target_scope_def f
          split: prod.splits sum.splits)
qed

text \<open>
  With the generator of the spec, which overwrites under \<^verbatim>\<open>force\<close>, the run replaces the
  text of the hand-written file and reports one command created. The generate command,
  which passes the \<^verbatim>\<open>force\<close> of its user, skips the same agent and leaves the file.
\<close>

lemma sync_overwrites_hand_written_file:
  "fst (snd (syncCommands ex_env (generateCommand ex_env) hyphen_resolver ''project'' False
               Map.empty ex_fs_hand)) ''/p/.claude/commands/test-agent.md'' =
     Some (File ''---\<newline>description: d\<newline>---\<newline><!-- ccsa:generated -->\<newline>body a\<newline>Generated by cc-slash-agents\<newline>'') \<and>
   (case snd (snd (syncCommands ex_env (generateCommand ex_env) hyphen_resolver ''project'' False
                     Map.empty ex_fs_hand)) of
      Inr (Synced pl created updated deleted errors) \<Rightarrow>
        created = 1 \<and> updated = 0 \<and> deleted = 0 \<and> errors = []
    | _ \<Rightarrow> False) \<and>
   snd (snd (generateCommands ex_env (generateCommand ex_env) hyphen_resolver spec_namer ''project''
               False False Map.empty ex_fs_hand)) = Inr (Generated [] [''test-agent''] []) \<and>
   fst (snd (generateCommands ex_env (generateCommand ex_env) hyphen_resolver spec_namer ''project''
               False False Map.empty ex_fs_hand)) ''/p/.claude/commands/test-agent.md'' =
     Some (File ''hand written'')"
  by code_simp


end
